theory Spec2Isabelle
  imports Complex_Main "HOL-Library.Multiset"
begin

section \<open>The array bridge of equistore: data model\<close>

text \<open>
  The module \<^verbatim>\<open>equistore/data/array.py\<close> wraps a numpy array or a torch tensor in an
  \<^verbatim>\<open>ArrayWrapper\<close> and hands the native library an \<^verbatim>\<open>eqs_array_t\<close>: a pointer to the
  wrapper and nine callbacks. The callbacks are embedded here as functions on an
  explicit state.

  An array of either library is a strided view of a block of storage: the storage it
  reads, the offset of its first element, its shape and one stride per axis (counted in
  elements). Views made by \<^verbatim>\<open>swapaxes\<close> and \<^verbatim>\<open>reshape\<close> share the storage of the array
  they come from, so storage lives in the state and an array names it by its position.
  Elements are of an arbitrary type \<open>'a\<close>; the element type the array declares is the
  tag \<open>dtype\<close>. Values are only moved, never computed with. The one place where a
  library changes a value is an assignment between numpy arrays of different element
  types; the conversion numpy applies there is a parameter, \<open>astype\<close>, of the functions
  that assign.
\<close>

datatype dtype = Float64 | Float32 | Int64 | Int32

datatype device = Cpu | Cuda

datatype backend = Numpy | Torch device bool
  \<comment> \<open>a \<^verbatim>\<open>numpy.ndarray\<close>, or a \<^verbatim>\<open>torch.Tensor\<close> with its device and \<^verbatim>\<open>requires_grad\<close>\<close>

record ndarray =
  backend :: backend
  dtype :: dtype
  buffer :: nat
  offset :: int
  shape :: "nat list"
  strides :: "int list"

datatype py_object =
    Array ndarray
  | Other string "nat list option"
  \<comment> \<open>any other object: the name of its type, and its \<^verbatim>\<open>shape\<close> attribute if it has one\<close>

datatype py_exception =
    ValueError string
  | AttributeError string
  | IndexError string
  | AxisError string
  | RuntimeError string
  | TypeError string

fun message :: "py_exception \<Rightarrow> string" where
  "message (ValueError m) = m"
| "message (AttributeError m) = m"
| "message (IndexError m) = m"
| "message (AxisError m) = m"
| "message (RuntimeError m) = m"
| "message (TypeError m) = m"

record eqs_array_t =
  ptr :: nat
  origin :: nat
  \<comment> \<open>\<open>ptr\<close> points to the wrapper; \<open>origin\<close> is the origin the closure
      \<^verbatim>\<open>eqs_array_origin\<close> captured. The other eight slots hold the same module-level
      functions for every wrapper.\<close>

record ArrayWrapper =
  array :: ndarray
  shape_cache :: "nat list"
  eqs_array :: eqs_array_t
  refcount :: nat
  \<comment> \<open>\<open>shape_cache\<close> is the field \<^verbatim>\<open>_shape\<close>. \<open>refcount\<close> counts the references to the
      wrapper held from outside it: Python variables, and the references taken with
      \<^verbatim>\<open>Py_IncRef\<close>. The wrapper also reaches itself through \<^verbatim>\<open>_eqs_array.ptr\<close>; that
      cycle does not keep it alive past a garbage collection and is not counted. At
      count 0 the wrapper, and with it its reference to the array, is released.\<close>

record eqs_sample_mapping_t =
  input_sample :: nat
  output_sample :: nat
  \<comment> \<open>the fields \<^verbatim>\<open>input\<close> and \<^verbatim>\<open>output\<close>: a row of the source and a row of the
      destination\<close>

record 'a state =
  buffers :: "'a list list"
  wrappers :: "ArrayWrapper list"
  NUMPY_STORAGE_ORIGIN :: "nat option"
  TORCH_STORAGE_ORIGIN :: "nat option"
  origins :: "string list"
  last_error :: "string option"
  \<comment> \<open>\<open>buffers\<close>: every block of array storage allocated so far, by address;
      \<open>wrappers\<close>: every \<^verbatim>\<open>ArrayWrapper\<close> created so far, by address;
      the two module globals caching the registered origins;
      \<open>origins\<close>: the names registered with the native library;
      \<open>last_error\<close>: the message saved by the last failed callback.\<close>


section \<open>Array geometry\<close>

fun c_strides :: "nat list \<Rightarrow> int list" where
  "c_strides [] = []"
| "c_strides (n # ns) = int (prod_list ns) # c_strides ns"

text \<open>All indices of an array of a given shape, in row-major (C) order.\<close>

fun all_indices :: "nat list \<Rightarrow> nat list list" where
  "all_indices [] = [[]]"
| "all_indices (n # ns) = concat (map (\<lambda>i. map ((#) i) (all_indices ns)) [0..<n])"

definition offset_of :: "ndarray \<Rightarrow> nat list \<Rightarrow> int" where
  "offset_of a idx = offset a + sum_list (map2 (\<lambda>i st. int i * st) idx (strides a))"

text \<open>The element of an array at an index: a read of its storage.\<close>

definition get :: "'a state \<Rightarrow> ndarray \<Rightarrow> nat list \<Rightarrow> 'a" where
  "get s a idx = (buffers s ! buffer a) ! nat (offset_of a idx)"

definition elements :: "'a state \<Rightarrow> ndarray \<Rightarrow> 'a list" where
  "elements s a = map (get s a) (all_indices (shape a))"

text \<open>
  The flag \<^verbatim>\<open>c_contiguous\<close>, as both numpy and the buffer protocol compute it: an array
  with an empty axis is contiguous; otherwise the strides of the axes longer than one,
  read from the last axis to the first, are the running product of the lengths.
\<close>

fun contiguous_from :: "(nat \<times> int) list \<Rightarrow> int \<Rightarrow> bool" where
  "contiguous_from [] sd = True"
| "contiguous_from ((d, st) # r) sd =
     (if d = 1 then contiguous_from r sd else st = sd \<and> contiguous_from r (sd * int d))"

definition c_contiguous :: "ndarray \<Rightarrow> bool" where
  "c_contiguous a =
     (0 \<in> set (shape a) \<or> contiguous_from (rev (zip (shape a) (strides a))) 1)"

definition swap :: "nat \<Rightarrow> nat \<Rightarrow> 'b list \<Rightarrow> 'b list" where
  "swap i j xs = xs[i := xs ! j, j := xs ! i]"

text \<open>The position of an index in the row-major order of the indices of a shape.\<close>

definition c_index :: "nat list \<Rightarrow> nat list \<Rightarrow> nat" where
  "c_index shp idx = nat (sum_list (map2 (\<lambda>i st. int i * st) idx (c_strides shp)))"


section \<open>The array operations of numpy and torch the bridge calls\<close>

text \<open>
  \<^verbatim>\<open>numpy.zeros\<close> and \<^verbatim>\<open>torch.zeros\<close>: a new block of storage filled with zeros, and a
  C-contiguous array over it. The tensor is created on the device it is given and does
  not require a gradient.
\<close>

definition zeros :: "backend \<Rightarrow> nat list \<Rightarrow> dtype \<Rightarrow> 'a::zero state \<Rightarrow> ndarray \<times> 'a state" where
  "zeros b shp dt s =
     (\<lparr>backend = b, dtype = dt, buffer = length (buffers s), offset = 0,
       shape = shp, strides = c_strides shp\<rparr>,
      s\<lparr>buffers := buffers s @ [replicate (prod_list shp) 0]\<rparr>)"

text \<open>
  \<^verbatim>\<open>ndarray.copy()\<close> and \<^verbatim>\<open>Tensor.clone()\<close>: a new block of storage holding the elements
  of the array in row-major order, and a C-contiguous array over it. (A clone keeps
  \<^verbatim>\<open>requires_grad\<close>. For a dense tensor torch keeps the order of the strides of the
  source instead; the values at each index are the same.)
\<close>

definition copy_array :: "ndarray \<Rightarrow> 'a state \<Rightarrow> ndarray \<times> 'a state" where
  "copy_array a s =
     (a\<lparr>buffer := length (buffers s), offset := 0, strides := c_strides (shape a)\<rparr>,
      s\<lparr>buffers := buffers s @ [elements s a]\<rparr>)"

text \<open>
  \<^verbatim>\<open>reshape\<close>: fails unless the new shape has as many elements as the array. A
  C-contiguous array is reshaped as a view of the same storage; any other array is
  copied first. (Both libraries also return a view for some arrays that are not
  contiguous; this changes which storage the result uses, not its values.)
  numpy raises \<^verbatim>\<open>ValueError\<close>, torch \<^verbatim>\<open>RuntimeError\<close>.
\<close>

definition reshape_error :: "backend \<Rightarrow> py_exception" where
  "reshape_error b =
     (case b of
        Numpy \<Rightarrow> ValueError ''cannot reshape array into the requested shape''
      | Torch _ _ \<Rightarrow> RuntimeError ''shape is invalid for input'')"

definition reshape :: "ndarray \<Rightarrow> nat list \<Rightarrow> 'a state \<Rightarrow> py_exception + ndarray \<times> 'a state" where
  "reshape a shp s =
     (if prod_list shp \<noteq> prod_list (shape a) then Inl (reshape_error (backend a))
      else if c_contiguous a then Inr (a\<lparr>shape := shp, strides := c_strides shp\<rparr>, s)
      else (let (c, s') = copy_array a s
            in Inr (c\<lparr>shape := shp, strides := c_strides shp\<rparr>, s')))"

text \<open>
  \<^verbatim>\<open>swapaxes\<close>: a view of the same storage with two axes exchanged. An axis that the
  array does not have is an error (\<^verbatim>\<open>AxisError\<close> in numpy, \<^verbatim>\<open>IndexError\<close> in torch). The
  bridge passes unsigned axes, so no axis counts from the end.
\<close>

definition axis_error :: "backend \<Rightarrow> py_exception" where
  "axis_error b =
     (case b of
        Numpy \<Rightarrow> AxisError ''axis is out of bounds for array''
      | Torch _ _ \<Rightarrow> IndexError ''Dimension out of range'')"

definition swapaxes :: "ndarray \<Rightarrow> nat \<Rightarrow> nat \<Rightarrow> py_exception + ndarray" where
  "swapaxes a axis_1 axis_2 =
     (if axis_1 < length (shape a) \<and> axis_2 < length (shape a)
      then Inr (a\<lparr>shape := swap axis_1 axis_2 (shape a),
                  strides := swap axis_1 axis_2 (strides a)\<rparr>)
      else Inl (axis_error (backend a)))"

text \<open>
  Indexing with a list of rows, an ellipsis and a slice of the last axis, as
  \<^verbatim>\<open>move_samples_from\<close> does on both sides of its assignment. The row indices are
  unsigned. Both libraries check every index before they read or write anything.

  \<^verbatim>\<open>a[rows, ..., :]\<close> is a new array, independent of \<open>a\<close>, of the library, element
  type, device and gradient tracking of \<open>a\<close>: its shape, and its elements as a function
  of the index, read from the state the expression is evaluated in.
\<close>

record 'a array_value =
  value_backend :: backend
  value_dtype :: dtype
  value_shape :: "nat list"
  value_at :: "nat list \<Rightarrow> 'a"

definition take_rows :: "'a state \<Rightarrow> ndarray \<Rightarrow> nat list \<Rightarrow> py_exception + 'a array_value" where
  "take_rows s a rows =
     (if length (shape a) < 2 then Inl (IndexError ''too many indices for array'')
      else if \<exists>r \<in> set rows. hd (shape a) \<le> r
      then Inl (IndexError ''index is out of bounds for axis 0'')
      else Inr \<lparr>value_backend = backend a, value_dtype = dtype a,
                value_shape = length rows # tl (shape a),
                value_at = \<lambda>idx. get s a (rows ! hd idx # tl idx)\<rparr>)"

text \<open>
  Broadcasting a value of shape \<open>v\<close> to a target of shape \<open>t\<close>: leading axes of length
  one that the target does not have are dropped, missing leading axes are added, and
  then every axis of the value is as long as the target's or has length one.
  \<open>broadcast_index v t idx\<close> is the index of the value that is stored at index \<open>idx\<close>
  of the target.
\<close>

fun strip_ones :: "nat list \<Rightarrow> nat \<Rightarrow> nat list" where
  "strip_ones [] n = []"
| "strip_ones (d # ds) n = (if n < length (d # ds) \<and> d = 1 then strip_ones ds n else d # ds)"

definition broadcastable :: "nat list \<Rightarrow> nat list \<Rightarrow> bool" where
  "broadcastable v t =
     (let v' = strip_ones v (length t)
      in length v' \<le> length t \<and>
         list_all2 (\<lambda>d n. d = n \<or> d = 1) v' (drop (length t - length v') t))"

definition broadcast_index :: "nat list \<Rightarrow> nat list \<Rightarrow> nat list \<Rightarrow> nat list" where
  "broadcast_index v t idx =
     (let v' = strip_ones v (length t)
      in replicate (length v - length v') 0 @
         map2 (\<lambda>d i. if d = 1 then 0 else i) v' (drop (length t - length v') idx))"

definition put :: "ndarray \<Rightarrow> nat list \<Rightarrow> 'a \<Rightarrow> 'a state \<Rightarrow> 'a state" where
  "put a idx x s =
     s\<lparr>buffers := (buffers s)[buffer a := (buffers s ! buffer a)[nat (offset_of a idx) := x]]\<rparr>"

text \<open>
  What the library makes of the value of an indexed assignment to \<open>a\<close> before it stores
  anything: the exception it raises, or the gradient tracking of \<open>a\<close> after the
  assignment and the conversion applied to each element.

  numpy turns the value into an array of the element type of \<open>a\<close>. A tensor is first
  turned into an array, which fails for a tensor on another device than the CPU and for
  a tensor that requires a gradient; elements of another element type are converted with
  \<open>astype\<close>.

  torch refuses a value that is a numpy array, refuses to write into a tensor that
  requires a gradient (a tensor made so, or a view of one), and refuses a value on
  another device or of another element type. A tensor that is assigned a value requiring
  a gradient requires one from then on.
\<close>

definition assigned ::
  "(dtype \<Rightarrow> dtype \<Rightarrow> 'a \<Rightarrow> 'a) \<Rightarrow> ndarray \<Rightarrow> 'a array_value
     \<Rightarrow> py_exception + backend \<times> ('a \<Rightarrow> 'a)" where
  "assigned astype a val =
     (case backend a of
        Numpy \<Rightarrow>
          (case value_backend val of
             Numpy \<Rightarrow>
               Inr (Numpy, if value_dtype val = dtype a then (\<lambda>x. x)
                           else astype (value_dtype val) (dtype a))
           | Torch dev g \<Rightarrow>
               if dev \<noteq> Cpu
               then Inl (TypeError ''can not convert cuda device type tensor to numpy'')
               else if g
               then Inl (RuntimeError ''Can not call numpy() on Tensor that requires grad'')
               else Inr (Numpy, if value_dtype val = dtype a then (\<lambda>x. x)
                                else astype (value_dtype val) (dtype a)))
      | Torch dev g \<Rightarrow>
          (case value_backend val of
             Numpy \<Rightarrow> Inl (TypeError ''can not assign a numpy.ndarray to a torch tensor'')
           | Torch dev' g' \<Rightarrow>
               if g
               then Inl (RuntimeError
                 ''a leaf Variable that requires grad is being used in an in-place operation'')
               else if dev' \<noteq> dev
               then Inl (RuntimeError ''Expected all tensors to be on the same device'')
               else if value_dtype val \<noteq> dtype a
               then Inl (RuntimeError
                 ''Index put requires the source and destination dtypes match'')
               else Inr (Torch dev g', \<lambda>x. x)))"

definition broadcast_error :: "backend \<Rightarrow> py_exception" where
  "broadcast_error b =
     (case b of
        Numpy \<Rightarrow> ValueError
          ''shape mismatch: value array could not be broadcast to indexing result''
      | Torch _ _ \<Rightarrow> RuntimeError
          ''shape mismatch: value tensor cannot be broadcast to indexing result'')"

text \<open>
  \<^verbatim>\<open>a[rows, ..., start:stop] = value\<close>: the exception raised, or the gradient tracking
  of \<open>a\<close> after the assignment and the new state. The slice is cut to the length of the
  last axis, as Python slices are (\<open>hi - lo\<close> is 0 when the slice is empty). The
  elements are stored in the order of the indices, so when a row is named twice the
  later one is what remains.
\<close>

definition put_rows ::
  "(dtype \<Rightarrow> dtype \<Rightarrow> 'a \<Rightarrow> 'a) \<Rightarrow> ndarray \<Rightarrow> nat list \<Rightarrow> nat \<Rightarrow> nat \<Rightarrow> 'a array_value
     \<Rightarrow> 'a state \<Rightarrow> py_exception + backend \<times> 'a state" where
  "put_rows astype a rows start stop val s =
     (if length (shape a) < 2 then Inl (IndexError ''too many indices for array'')
      else
        (case assigned astype a val of
           Inl e \<Rightarrow> Inl e
         | Inr (b, convert) \<Rightarrow>
             if \<exists>r \<in> set rows. hd (shape a) \<le> r
             then Inl (IndexError ''index is out of bounds for axis 0'')
             else
               (let lo = min start (last (shape a));
                    hi = min stop (last (shape a));
                    t = length rows # butlast (tl (shape a)) @ [hi - lo]
                in if \<not> broadcastable (value_shape val) t
                   then Inl (broadcast_error (backend a))
                   else Inr (b, fold
                     (\<lambda>idx. put a (rows ! hd idx # butlast (tl idx) @ [lo + last idx])
                        (convert (value_at val (broadcast_index (value_shape val) t idx))))
                     (all_indices t) s))))"


section \<open>The bridge\<close>

subsection \<open>Origins\<close>

text \<open>
  Modelled from the spec: the native function \<^verbatim>\<open>eqs_register_data_origin\<close>, which
  \<^verbatim>\<open>_register_origin\<close> calls, is not part of the Python sources. It records the name in
  the process-wide registry and returns its tag; the registry itself does not look for a
  name registered before.
\<close>

definition register_origin :: "string \<Rightarrow> 'a state \<Rightarrow> nat \<times> 'a state" where
  "register_origin name s = (length (origins s), s\<lparr>origins := origins s @ [name]\<rparr>)"

definition origin_numpy :: "'a state \<Rightarrow> nat \<times> 'a state" where
  "origin_numpy s =
     (case NUMPY_STORAGE_ORIGIN s of
        None \<Rightarrow>
          (let (tag, s') = register_origin ''equistore.data.array.numpy'' s
           in (tag, s'\<lparr>NUMPY_STORAGE_ORIGIN := Some tag\<rparr>))
      | Some tag \<Rightarrow> (tag, s))"

definition origin_pytorch :: "'a state \<Rightarrow> nat \<times> 'a state" where
  "origin_pytorch s =
     (case TORCH_STORAGE_ORIGIN s of
        None \<Rightarrow>
          (let (tag, s') = register_origin ''equistore.data.array.torch'' s
           in (tag, s'\<lparr>TORCH_STORAGE_ORIGIN := Some tag\<rparr>))
      | Some tag \<Rightarrow> (tag, s))"


subsection \<open>The wrapper\<close>

text \<open>
  \<^verbatim>\<open>_is_numpy_array\<close> and \<^verbatim>\<open>_is_torch_array\<close>. A tensor exists only where torch can be
  imported, so \<^verbatim>\<open>HAS_TORCH\<close> holds whenever the object is a tensor.
\<close>

definition is_numpy_array :: "py_object \<Rightarrow> bool" where
  "is_numpy_array obj = (case obj of Array a \<Rightarrow> backend a = Numpy | Other _ _ \<Rightarrow> False)"

definition is_torch_array :: "py_object \<Rightarrow> bool" where
  "is_torch_array obj = (case obj of Array a \<Rightarrow> backend a \<noteq> Numpy | Other _ _ \<Rightarrow> False)"

definition shape_attr :: "py_object \<Rightarrow> nat list option" where
  "shape_attr obj = (case obj of Array a \<Rightarrow> Some (shape a) | Other _ shp \<Rightarrow> shp)"

definition type_name :: "py_object \<Rightarrow> string" where
  "type_name obj =
     (case obj of
        Array a \<Rightarrow> (if backend a = Numpy then ''numpy.ndarray'' else ''torch.Tensor'')
      | Other name _ \<Rightarrow> name)"

text \<open>
  \<^verbatim>\<open>ArrayWrapper.__init__\<close>, called as \<^verbatim>\<open>ArrayWrapper(array)\<close>: the address of the new
  wrapper, or the exception raised. The shape is read before the type of the object is
  looked at. The one reference to the new wrapper is the caller's.
\<close>

definition alloc_wrapper :: "ndarray \<Rightarrow> nat list \<Rightarrow> nat \<times> 'a state \<Rightarrow> nat \<times> 'a state" where
  "alloc_wrapper a shp r =
     (let (array_origin, s) = r;
          self = length (wrappers s)
      in (self,
          s\<lparr>wrappers := wrappers s @
             [\<lparr>array = a, shape_cache = shp,
               eqs_array = \<lparr>ptr = self, origin = array_origin\<rparr>, refcount = 1\<rparr>]\<rparr>))"

fun the_array :: "py_object \<Rightarrow> ndarray" where
  "the_array (Array a) = a"

definition ArrayWrapper_init :: "py_object \<Rightarrow> 'a state \<Rightarrow> py_exception + nat \<times> 'a state" where
  "ArrayWrapper_init obj s =
     (case shape_attr obj of
        None \<Rightarrow> Inl (AttributeError (type_name obj @ '' object has no attribute shape''))
      | Some shp \<Rightarrow>
          (if is_numpy_array obj
           then Inr (alloc_wrapper (the_array obj) shp (origin_numpy s))
           else if is_torch_array obj
           then Inr (alloc_wrapper (the_array obj) shp (origin_pytorch s))
           else Inl (ValueError (''unknown array type: '' @ type_name obj))))"

text \<open>\<^verbatim>\<open>Py_IncRef\<close> and \<^verbatim>\<open>Py_DecRef\<close> on a wrapper.\<close>

definition Py_IncRef :: "nat \<Rightarrow> 'a state \<Rightarrow> 'a state" where
  "Py_IncRef p s =
     s\<lparr>wrappers := (wrappers s)[p := (wrappers s ! p)\<lparr>refcount := refcount (wrappers s ! p) + 1\<rparr>]\<rparr>"

definition Py_DecRef :: "nat \<Rightarrow> 'a state \<Rightarrow> 'a state" where
  "Py_DecRef p s =
     s\<lparr>wrappers := (wrappers s)[p := (wrappers s ! p)\<lparr>refcount := refcount (wrappers s ! p) - 1\<rparr>]\<rparr>"

definition into_eqs_array :: "nat \<Rightarrow> 'a state \<Rightarrow> eqs_array_t \<times> 'a state" where
  "into_eqs_array self s = (eqs_array (wrappers s ! self), Py_IncRef self s)"

text \<open>
  \<^verbatim>\<open>_object_from_ptr\<close>: the wrapper a pointer handed back by the native library points
  to. Reading through a pointer to a wrapper that was never made, or that has been
  released, is not a Python exception: nothing is known of what the program does then,
  and the result is \<open>None\<close>.
\<close>

definition object_from_ptr :: "'a state \<Rightarrow> nat \<Rightarrow> ArrayWrapper option" where
  "object_from_ptr s p =
     (if p < length (wrappers s) \<and> 0 < refcount (wrappers s ! p)
      then Some (wrappers s ! p) else None)"


subsection \<open>The callbacks\<close>

text \<open>
  What a callback hands back through its output argument: nothing, the origin, the
  address of the first element (the storage and the position in it), the shape, or the
  \<^verbatim>\<open>eqs_array_t\<close> of a new array.
\<close>

datatype out =
    NoOut
  | OutOrigin nat
  | OutData nat int
  | OutShape "nat list"
  | OutArray eqs_array_t

definition EQS_SUCCESS :: int where
  "EQS_SUCCESS = 0"

text \<open>
  Modelled from the spec: the decorator \<^verbatim>\<open>catch_exceptions\<close> of \<^verbatim>\<open>equistore/utils.py\<close>
  is not among the sources. It runs the function; an exception raised inside is caught,
  its message is saved where the caller can retrieve it, and a status other than
  \<^verbatim>\<open>EQS_SUCCESS\<close> is returned (\<open>-1\<close> here; the spec asks only that it is not 0);
  otherwise the status is \<^verbatim>\<open>EQS_SUCCESS\<close>. The body of a callback is a function from
  the state to the exception raised or to the output and the new state; every body
  below raises before it changes anything.
\<close>

definition catch_exceptions ::
  "('a state \<Rightarrow> (py_exception + out \<times> 'a state) option) \<Rightarrow> 'a state
     \<Rightarrow> (int \<times> out \<times> 'a state) option" where
  "catch_exceptions function s =
     (case function s of
        None \<Rightarrow> None
      | Some (Inl e) \<Rightarrow> Some (- 1, NoOut, s\<lparr>last_error := Some (message e)\<rparr>)
      | Some (Inr (r, s')) \<Rightarrow> Some (EQS_SUCCESS, r, s'))"

text \<open>The closure \<^verbatim>\<open>eqs_array_origin\<close> of a wrapper; it does not read \<open>this\<close>.\<close>

definition eqs_array_origin :: "nat \<Rightarrow> nat \<Rightarrow> 'a state \<Rightarrow> (int \<times> out \<times> 'a state) option" where
  "eqs_array_origin array_origin this =
     catch_exceptions (\<lambda>s. Some (Inr (OutOrigin array_origin, s)))"

definition dtype_name :: "dtype \<Rightarrow> string" where
  "dtype_name d =
     (case d of Float64 \<Rightarrow> ''float64'' | Float32 \<Rightarrow> ''float32''
              | Int64 \<Rightarrow> ''int64'' | Int32 \<Rightarrow> ''int32'')"

text \<open>
  \<^verbatim>\<open>Tensor.numpy()\<close>: a numpy array over the storage of the tensor; it fails for a
  tensor that requires a gradient.
\<close>

definition tensor_numpy :: "ndarray \<Rightarrow> py_exception + ndarray" where
  "tensor_numpy a =
     (case backend a of
        Torch _ True \<Rightarrow> Inl (RuntimeError ''Can not call numpy() on Tensor that requires grad'')
      | _ \<Rightarrow> Inr (a\<lparr>backend := Numpy\<rparr>))"

definition eqs_array_data :: "nat \<Rightarrow> 'a state \<Rightarrow> (int \<times> out \<times> 'a state) option" where
  "eqs_array_data this =
     catch_exceptions (\<lambda>s.
       case object_from_ptr s this of
         None \<Rightarrow> None
       | Some storage \<Rightarrow> Some
           (case (case backend (array storage) of
                    Numpy \<Rightarrow> Inr (array storage)
                  | Torch dev _ \<Rightarrow>
                      if dev \<noteq> Cpu
                      then Inl (ValueError ''can only get data pointer for tensors on CPU'')
                      else tensor_numpy (array storage)) of
              Inl e \<Rightarrow> Inl e
            | Inr a \<Rightarrow>
                if \<not> c_contiguous a
                then Inl (ValueError ''can not get data pointer for non contiguous array'')
                else if \<not> dtype a = Float64
                then Inl (ValueError
                  (''can not get data pointer for array type '' @ dtype_name (dtype a)))
                else Inr (OutData (buffer a) (offset a), s)))"

definition eqs_array_shape :: "nat \<Rightarrow> 'a state \<Rightarrow> (int \<times> out \<times> 'a state) option" where
  "eqs_array_shape this =
     catch_exceptions (\<lambda>s.
       case object_from_ptr s this of
         None \<Rightarrow> None
       | Some wrapper \<Rightarrow> Some (Inr (OutShape (shape_cache wrapper), s)))"

text \<open>
  The callbacks that take a shape read it from a C array and its length; here it is
  the list of its entries.
\<close>

definition eqs_array_reshape ::
  "nat \<Rightarrow> nat list \<Rightarrow> 'a state \<Rightarrow> (int \<times> out \<times> 'a state) option" where
  "eqs_array_reshape this shp =
     catch_exceptions (\<lambda>s.
       case object_from_ptr s this of
         None \<Rightarrow> None
       | Some wrapper \<Rightarrow> Some
           (case reshape (array wrapper) shp s of
              Inl e \<Rightarrow> Inl e
            | Inr (a, s') \<Rightarrow>
                Inr (NoOut,
                     s'\<lparr>wrappers := (wrappers s')
                          [this := wrapper\<lparr>array := a, shape_cache := shp\<rparr>]\<rparr>)))"

definition eqs_array_swap_axes ::
  "nat \<Rightarrow> nat \<Rightarrow> nat \<Rightarrow> 'a state \<Rightarrow> (int \<times> out \<times> 'a state) option" where
  "eqs_array_swap_axes this axis_1 axis_2 =
     catch_exceptions (\<lambda>s.
       case object_from_ptr s this of
         None \<Rightarrow> None
       | Some wrapper \<Rightarrow> Some
           (case swapaxes (array wrapper) axis_1 axis_2 of
              Inl e \<Rightarrow> Inl e
            | Inr a \<Rightarrow>
                Inr (NoOut,
                     s\<lparr>wrappers := (wrappers s)
                         [this := wrapper\<lparr>array := a, shape_cache := shape a\<rparr>]\<rparr>)))"

text \<open>
  \<^verbatim>\<open>create\<close> and \<^verbatim>\<open>copy\<close> end with the same two lines: the new array is wrapped, the
  wrapper gives out its \<^verbatim>\<open>eqs_array_t\<close>, and when the callback returns its local
  variable \<^verbatim>\<open>new_wrapper\<close> lets go of the wrapper.
\<close>

definition wrap_new_array :: "ndarray \<times> 'a state \<Rightarrow> py_exception + out \<times> 'a state" where
  "wrap_new_array r =
     (let (a, s) = r
      in case ArrayWrapper_init (Array a) s of
           Inl e \<Rightarrow> Inl e
         | Inr (new_wrapper, s1) \<Rightarrow>
             (let (new_array, s2) = into_eqs_array new_wrapper s1
              in Inr (OutArray new_array, Py_DecRef new_wrapper s2)))"

definition eqs_array_create ::
  "nat \<Rightarrow> nat list \<Rightarrow> 'a::zero state \<Rightarrow> (int \<times> out \<times> 'a state) option" where
  "eqs_array_create this shp =
     catch_exceptions (\<lambda>s.
       case object_from_ptr s this of
         None \<Rightarrow> None
       | Some wrapper \<Rightarrow> Some
           (case backend (array wrapper) of
              Numpy \<Rightarrow> wrap_new_array (zeros Numpy shp (dtype (array wrapper)) s)
            | Torch dev _ \<Rightarrow>
                wrap_new_array (zeros (Torch dev False) shp (dtype (array wrapper)) s)))"

definition eqs_array_copy :: "nat \<Rightarrow> 'a state \<Rightarrow> (int \<times> out \<times> 'a state) option" where
  "eqs_array_copy this =
     catch_exceptions (\<lambda>s.
       case object_from_ptr s this of
         None \<Rightarrow> None
       | Some wrapper \<Rightarrow> Some (wrap_new_array (copy_array (array wrapper) s)))"

definition eqs_array_destroy :: "nat \<Rightarrow> 'a state \<Rightarrow> (int \<times> out \<times> 'a state) option" where
  "eqs_array_destroy this =
     catch_exceptions (\<lambda>s.
       case object_from_ptr s this of
         None \<Rightarrow> None
       | Some wrapper \<Rightarrow> Some (Inr (NoOut, Py_DecRef this s)))"

text \<open>
  \<^verbatim>\<open>move_samples_from\<close>. The assignment writes into the array the wrapper holds; when
  it makes that tensor require a gradient, the array of the wrapper is that tensor and
  requires one too.
\<close>

definition eqs_array_move_samples_from ::
  "(dtype \<Rightarrow> dtype \<Rightarrow> 'a \<Rightarrow> 'a) \<Rightarrow> nat \<Rightarrow> nat \<Rightarrow> eqs_sample_mapping_t list \<Rightarrow> nat \<Rightarrow> nat
     \<Rightarrow> 'a state \<Rightarrow> (int \<times> out \<times> 'a state) option" where
  "eqs_array_move_samples_from astype this inp samples property_start property_end =
     catch_exceptions (\<lambda>s.
       case object_from_ptr s this of
         None \<Rightarrow> None
       | Some out_wrapper \<Rightarrow>
           (case object_from_ptr s inp of
              None \<Rightarrow> None
            | Some in_wrapper \<Rightarrow> Some
                (case take_rows s (array in_wrapper) (map input_sample samples) of
                   Inl e \<Rightarrow> Inl e
                 | Inr val \<Rightarrow>
                     (case put_rows astype (array out_wrapper) (map output_sample samples)
                             property_start property_end val s of
                        Inl e \<Rightarrow> Inl e
                      | Inr (b, s') \<Rightarrow>
                          Inr (NoOut,
                               s'\<lparr>wrappers := (wrappers s')
                                    [this := out_wrapper
                                       \<lparr>array := (array out_wrapper)\<lparr>backend := b\<rparr>\<rparr>]\<rparr>)))))"

text \<open>
  The nine slots of an \<^verbatim>\<open>eqs_array_t\<close>, and a call of one of them by the native
  library, which passes the \<open>ptr\<close> of the structure as \<open>this\<close>.
\<close>

datatype call =
    Origin
  | Data
  | Shape
  | Reshape "nat list"
  | Swap_axes nat nat
  | Create "nat list"
  | Copy
  | Destroy
  | Move_samples_from nat "eqs_sample_mapping_t list" nat nat

fun invoke ::
  "(dtype \<Rightarrow> dtype \<Rightarrow> 'a \<Rightarrow> 'a) \<Rightarrow> eqs_array_t \<Rightarrow> call \<Rightarrow> 'a::zero state
     \<Rightarrow> (int \<times> out \<times> 'a state) option" where
  "invoke astype e Origin = eqs_array_origin (origin e) (ptr e)"
| "invoke astype e Data = eqs_array_data (ptr e)"
| "invoke astype e Shape = eqs_array_shape (ptr e)"
| "invoke astype e (Reshape shp) = eqs_array_reshape (ptr e) shp"
| "invoke astype e (Swap_axes axis_1 axis_2) = eqs_array_swap_axes (ptr e) axis_1 axis_2"
| "invoke astype e (Create shp) = eqs_array_create (ptr e) shp"
| "invoke astype e Copy = eqs_array_copy (ptr e)"
| "invoke astype e Destroy = eqs_array_destroy (ptr e)"
| "invoke astype e (Move_samples_from inp samples property_start property_end) =
     eqs_array_move_samples_from astype (ptr e) inp samples property_start property_end"

text \<open>
  The function each slot holds before \<^verbatim>\<open>catch_exceptions\<close> is applied to it: the body
  of the callback as it is written in the module.
\<close>

fun undecorated ::
  "(dtype \<Rightarrow> dtype \<Rightarrow> 'a \<Rightarrow> 'a) \<Rightarrow> eqs_array_t \<Rightarrow> call \<Rightarrow> 'a::zero state
     \<Rightarrow> (py_exception + out \<times> 'a state) option" where
  "undecorated astype e Origin s = Some (Inr (OutOrigin (origin e), s))"
| "undecorated astype e Data s =
     (case object_from_ptr s (ptr e) of
        None \<Rightarrow> None
      | Some storage \<Rightarrow> Some
          (case (case backend (array storage) of
                   Numpy \<Rightarrow> Inr (array storage)
                 | Torch dev _ \<Rightarrow>
                     if dev \<noteq> Cpu
                     then Inl (ValueError ''can only get data pointer for tensors on CPU'')
                     else tensor_numpy (array storage)) of
             Inl e \<Rightarrow> Inl e
           | Inr a \<Rightarrow>
               if \<not> c_contiguous a
               then Inl (ValueError ''can not get data pointer for non contiguous array'')
               else if \<not> dtype a = Float64
               then Inl (ValueError
                 (''can not get data pointer for array type '' @ dtype_name (dtype a)))
               else Inr (OutData (buffer a) (offset a), s)))"
| "undecorated astype e Shape s =
     (case object_from_ptr s (ptr e) of
        None \<Rightarrow> None
      | Some wrapper \<Rightarrow> Some (Inr (OutShape (shape_cache wrapper), s)))"
| "undecorated astype e (Reshape shp) s =
     (case object_from_ptr s (ptr e) of
        None \<Rightarrow> None
      | Some wrapper \<Rightarrow> Some
          (case reshape (array wrapper) shp s of
             Inl e \<Rightarrow> Inl e
           | Inr (a, s') \<Rightarrow>
               Inr (NoOut,
                    s'\<lparr>wrappers := (wrappers s')
                         [ptr e := wrapper\<lparr>array := a, shape_cache := shp\<rparr>]\<rparr>)))"
| "undecorated astype e (Swap_axes axis_1 axis_2) s =
     (case object_from_ptr s (ptr e) of
        None \<Rightarrow> None
      | Some wrapper \<Rightarrow> Some
          (case swapaxes (array wrapper) axis_1 axis_2 of
             Inl e \<Rightarrow> Inl e
           | Inr a \<Rightarrow>
               Inr (NoOut,
                    s\<lparr>wrappers := (wrappers s)
                        [ptr e := wrapper\<lparr>array := a, shape_cache := shape a\<rparr>]\<rparr>)))"
| "undecorated astype e (Create shp) s =
     (case object_from_ptr s (ptr e) of
        None \<Rightarrow> None
      | Some wrapper \<Rightarrow> Some
          (case backend (array wrapper) of
             Numpy \<Rightarrow> wrap_new_array (zeros Numpy shp (dtype (array wrapper)) s)
           | Torch dev _ \<Rightarrow>
               wrap_new_array (zeros (Torch dev False) shp (dtype (array wrapper)) s)))"
| "undecorated astype e Copy s =
     (case object_from_ptr s (ptr e) of
        None \<Rightarrow> None
      | Some wrapper \<Rightarrow> Some (wrap_new_array (copy_array (array wrapper) s)))"
| "undecorated astype e Destroy s =
     (case object_from_ptr s (ptr e) of
        None \<Rightarrow> None
      | Some wrapper \<Rightarrow> Some (Inr (NoOut, Py_DecRef (ptr e) s)))"
| "undecorated astype e (Move_samples_from inp samples property_start property_end) s =
     (case object_from_ptr s (ptr e) of
        None \<Rightarrow> None
      | Some out_wrapper \<Rightarrow>
          (case object_from_ptr s inp of
             None \<Rightarrow> None
           | Some in_wrapper \<Rightarrow> Some
               (case take_rows s (array in_wrapper) (map input_sample samples) of
                  Inl e \<Rightarrow> Inl e
                | Inr val \<Rightarrow>
                    (case put_rows astype (array out_wrapper) (map output_sample samples)
                            property_start property_end val s of
                       Inl e \<Rightarrow> Inl e
                     | Inr (b, s') \<Rightarrow>
                         Inr (NoOut,
                              s'\<lparr>wrappers := (wrappers s')
                                   [ptr e := out_wrapper
                                      \<lparr>array := (array out_wrapper)\<lparr>backend := b\<rparr>\<rparr>]\<rparr>)))))"


subsection \<open>Vocabulary of the properties\<close>

text \<open>
  Whether the storage of an array is in host memory, whether it tracks a gradient, and
  the result of a callback that failed with a given message.
\<close>

definition on_cpu :: "ndarray \<Rightarrow> bool" where
  "on_cpu a = (case backend a of Numpy \<Rightarrow> True | Torch dev _ \<Rightarrow> dev = Cpu)"

definition requires_grad :: "ndarray \<Rightarrow> bool" where
  "requires_grad a = (case backend a of Numpy \<Rightarrow> False | Torch _ g \<Rightarrow> g)"

definition failure :: "string \<Rightarrow> 'a state \<Rightarrow> int \<times> out \<times> 'a state" where
  "failure m s = (- 1, NoOut, s\<lparr>last_error := Some m\<rparr>)"




definition separate :: "'a state \<Rightarrow> nat \<Rightarrow> nat \<Rightarrow> bool" where
  "separate s p q =
     (p \<noteq> q \<and> p < length (wrappers s) \<and> q < length (wrappers s) \<and>
      buffer (array (wrappers s ! p)) < length (buffers s) \<and>
      buffer (array (wrappers s ! q)) < length (buffers s) \<and>
      buffer (array (wrappers s ! p)) \<noteq> buffer (array (wrappers s ! q)))"


text \<open>
  A wrapper is untouched between two states when it is the same wrapper in both and the
  elements of its array, in row-major order, are the same in both.
\<close>

definition untouched :: "'a state \<Rightarrow> 'a state \<Rightarrow> nat \<Rightarrow> bool" where
  "untouched s s' q =
     (wrappers s' ! q = wrappers s ! q \<and>
      elements s' (array (wrappers s' ! q)) = elements s (array (wrappers s ! q)))"


subsection \<open>Sequences of calls\<close>

text \<open>
  \<open>n\<close> calls of \<^verbatim>\<open>into_eqs_array\<close> on one wrapper; the Python side letting go of \<open>n\<close>
  of its references to it; and \<open>k\<close> calls of \<^verbatim>\<open>destroy\<close> by the native library.
\<close>

fun into_n :: "nat \<Rightarrow> nat \<Rightarrow> 'a state \<Rightarrow> 'a state" where
  "into_n 0 self s = s"
| "into_n (Suc n) self s = into_n n self (snd (into_eqs_array self s))"

fun release_n :: "nat \<Rightarrow> nat \<Rightarrow> 'a state \<Rightarrow> 'a state" where
  "release_n 0 self s = s"
| "release_n (Suc n) self s = release_n n self (Py_DecRef self s)"

fun destroy_n :: "nat \<Rightarrow> nat \<Rightarrow> 'a state \<Rightarrow> 'a state option" where
  "destroy_n 0 this s = Some s"
| "destroy_n (Suc k) this s =
     (case eqs_array_destroy this s of
        None \<Rightarrow> None
      | Some (status, r, s') \<Rightarrow> if status = EQS_SUCCESS then destroy_n k this s' else None)"


text \<open>A sequence of calls by the native library, each through a given \<^verbatim>\<open>eqs_array_t\<close>.\<close>

fun run ::
  "(dtype \<Rightarrow> dtype \<Rightarrow> 'a \<Rightarrow> 'a) \<Rightarrow> (eqs_array_t \<times> call) list \<Rightarrow> 'a::zero state
     \<Rightarrow> 'a state option" where
  "run astype [] s = Some s"
| "run astype ((e, c) # cs) s =
     (case invoke astype e c s of
        None \<Rightarrow> None
      | Some (status, r, s') \<Rightarrow> run astype cs s')"


subsection \<open>Example states\<close>

text \<open>
  The state of a program that has imported the module; that state after the program
  has made a numpy array of shape (2, 3, 4) and wrapped it, as the tests do; and the
  same with a tensor on the CPU that requires a gradient.
\<close>

definition initial_state :: "'a state" where
  "initial_state =
     \<lparr>buffers = [], wrappers = [], NUMPY_STORAGE_ORIGIN = None,
      TORCH_STORAGE_ORIGIN = None, origins = [], last_error = None\<rparr>"

definition wrapped_state :: "real state" where
  "wrapped_state =
     snd (projr (ArrayWrapper_init
       (Array (fst (zeros Numpy [2, 3, 4] Float64 (initial_state :: real state))))
       (snd (zeros Numpy [2, 3, 4] Float64 initial_state))))"

definition grad_state :: "real state" where
  "grad_state =
     snd (projr (ArrayWrapper_init
       (Array (fst (zeros (Torch Cpu True) [2, 3, 4] Float64 (initial_state :: real state))))
       (snd (zeros (Torch Cpu True) [2, 3, 4] Float64 initial_state))))"










text \<open>
  A state with one wrapped numpy array of shape (2, 2) holding 1, 2, 3, 4, given out to
  the native library once, and that state after the native library has called \<^verbatim>\<open>copy\<close>
  on it.
\<close>

definition copy_source :: ndarray where
  "copy_source = \<lparr>backend = Numpy, dtype = Float64, buffer = 0, offset = 0,
                   shape = [2, 2], strides = c_strides [2, 2]\<rparr>"

definition copy_state :: "real state" where
  "copy_state =
     \<lparr>buffers = [[1, 2, 3, 4]],
      wrappers = [\<lparr>array = copy_source, shape_cache = [2, 2],
                   eqs_array = \<lparr>ptr = 0, origin = 0\<rparr>, refcount = 2\<rparr>],
      NUMPY_STORAGE_ORIGIN = Some 0, TORCH_STORAGE_ORIGIN = None,
      origins = [''equistore.data.array.numpy''], last_error = None\<rparr>"

definition copied_state :: "real state" where
  "copied_state =
     copy_state\<lparr>buffers := [[1, 2, 3, 4], [1, 2, 3, 4]],
       wrappers := [\<lparr>array = copy_source, shape_cache = [2, 2],
                     eqs_array = \<lparr>ptr = 0, origin = 0\<rparr>, refcount = 2\<rparr>,
                    \<lparr>array = copy_source\<lparr>buffer := 1\<rparr>, shape_cache = [2, 2],
                     eqs_array = \<lparr>ptr = 1, origin = 0\<rparr>, refcount = 1\<rparr>]\<rparr>"

text \<open>
  A state with one wrapped numpy array of shape (2, 3) and element type int64 holding
  1 to 6, given out to the native library once.
\<close>

definition int64_array :: ndarray where
  "int64_array = \<lparr>backend = Numpy, dtype = Int64, buffer = 0, offset = 0,
                   shape = [2, 3], strides = c_strides [2, 3]\<rparr>"

definition int64_state :: "int state" where
  "int64_state =
     \<lparr>buffers = [[1, 2, 3, 4, 5, 6]],
      wrappers = [\<lparr>array = int64_array, shape_cache = [2, 3],
                   eqs_array = \<lparr>ptr = 0, origin = 0\<rparr>, refcount = 2\<rparr>],
      NUMPY_STORAGE_ORIGIN = Some 0, TORCH_STORAGE_ORIGIN = None,
      origins = [''equistore.data.array.numpy''], last_error = None\<rparr>"

text \<open>
  A conversion for the examples, where the elements are real numbers: to an integer
  type the fraction is cut off, as numpy does for a value in range; to a floating-point
  type the value is kept.
\<close>

definition example_astype :: "dtype \<Rightarrow> dtype \<Rightarrow> real \<Rightarrow> real" where
  "example_astype d d' x =
     (if d' = Int64 \<or> d' = Int32 then of_int (if 0 \<le> x then \<lfloor>x\<rfloor> else \<lceil>x\<rceil>) else x)"


section \<open>Properties\<close>

subsection \<open>Array geometry\<close>

lemma length_swap: "length (swap i j xs) = length xs"
  by (simp add: swap_def)

lemma swap_swap: "i < length xs \<Longrightarrow> j < length xs \<Longrightarrow> swap i j (swap i j xs) = xs"
  by (auto simp: swap_def list_eq_iff_nth_eq nth_list_update)

lemma mset_swap': "i < length xs \<Longrightarrow> j < length xs \<Longrightarrow> mset (swap i j xs) = mset xs"
  unfolding swap_def by (rule mset_swap)

lemma prod_list_swap:
  fixes xs :: "nat list"
  shows "i < length xs \<Longrightarrow> j < length xs \<Longrightarrow> prod_list (swap i j xs) = prod_list xs"
  by (metis mset_swap' prod_mset_prod_list)

lemma zip_swap:
  "length xs = length ys \<Longrightarrow> i < length xs \<Longrightarrow> j < length xs \<Longrightarrow>
   zip (swap i j xs) (swap i j ys) = swap i j (zip xs ys)"
  by (simp add: swap_def zip_update)

lemma map_swap: "i < length xs \<Longrightarrow> j < length xs \<Longrightarrow> map f (swap i j xs) = swap i j (map f xs)"
  by (simp add: swap_def map_update)

lemma sum_list_swap:
  fixes xs :: "int list"
  shows "i < length xs \<Longrightarrow> j < length xs \<Longrightarrow> sum_list (swap i j xs) = sum_list xs"
  by (metis mset_swap' sum_mset_sum_list)

lemma length_all_indices: "length (all_indices shp) = prod_list shp"
proof (induction shp)
  case Nil
  then show ?case by simp
next
  case (Cons n ns)
  have "length (all_indices (n # ns)) = (\<Sum>i\<leftarrow>[0..<n]. prod_list ns)"
    by (simp add: length_concat comp_def Cons.IH)
  then show ?case by (simp add: sum_list_triv)
qed

lemma set_all_indices: "set (all_indices shp) = {idx. list_all2 (<) idx shp}"
proof (induction shp)
  case Nil
  then show ?case by auto
next
  case (Cons n ns)
  show ?case
  proof (rule set_eqI)
    fix idx
    show "idx \<in> set (all_indices (n # ns)) \<longleftrightarrow> idx \<in> {idx. list_all2 (<) idx (n # ns)}"
      using Cons.IH by (cases idx) (auto simp: list_all2_Cons2)
  qed
qed

lemma concat_blocks_nth:
  assumes "\<And>k. k < n \<Longrightarrow> length (f k) = m" and "i < n" and "r < m"
  shows "concat (map f [0..<n]) ! (i * m + r) = f i ! r"
  using assms
proof (induction n)
  case 0
  then show ?case by simp
next
  case (Suc n)
  have "map (\<lambda>k. length (f k)) [0..<n] = map (\<lambda>k. m) [0..<n]"
    using Suc.prems(1) by (intro map_cong) simp_all
  then have "sum_list (map (\<lambda>k. length (f k)) [0..<n]) = sum_list (map (\<lambda>k. m) [0..<n])"
    by (rule arg_cong)
  then have len: "length (concat (map f [0..<n])) = n * m"
    by (simp add: length_concat comp_def sum_list_triv)
  show ?case
  proof (cases "i < n")
    case True
    have "i * m + r < n * m"
    proof -
      have "i * m + r < i * m + m" using Suc.prems(3) by simp
      also have "\<dots> = Suc i * m" by simp
      also have "\<dots> \<le> n * m" using True by (intro mult_le_mono1) simp
      finally show ?thesis .
    qed
    then show ?thesis using Suc.IH[OF _ True Suc.prems(3)] Suc.prems(1) len
      by (simp add: nth_append)
  next
    case False
    then have "i = n" using Suc.prems(2) by simp
    then show ?thesis using len by (simp add: nth_append)
  qed
qed

lemma c_sum_bounds:
  "list_all2 (<) idx shp \<Longrightarrow>
   0 \<le> sum_list (map2 (\<lambda>i st. int i * st) idx (c_strides shp)) \<and>
   sum_list (map2 (\<lambda>i st. int i * st) idx (c_strides shp)) < int (prod_list shp)"
proof (induction shp arbitrary: idx)
  case Nil
  then show ?case by simp
next
  case (Cons n ns)
  then obtain i rest where idx: "idx = i # rest" "i < n" "list_all2 (<) rest ns"
    by (auto simp: list_all2_Cons2)
  let ?r = "sum_list (map2 (\<lambda>i st. int i * st) rest (c_strides ns))"
  have r: "0 \<le> ?r" "?r < int (prod_list ns)" using Cons.IH[OF idx(3)] by simp_all
  have "int i * int (prod_list ns) + ?r < int i * int (prod_list ns) + int (prod_list ns)"
    using r by simp
  also have "\<dots> = int (Suc i * prod_list ns)" by simp
  also have "\<dots> \<le> int (n * prod_list ns)"
    using idx(2) by (intro iffD2[OF of_nat_le_iff] mult_le_mono1) simp
  finally show ?case using r idx by simp
qed

lemma all_indices_nth:
  "list_all2 (<) idx shp \<Longrightarrow> all_indices shp ! c_index shp idx = idx"
proof (induction shp arbitrary: idx)
  case Nil
  then show ?case by (simp add: c_index_def)
next
  case (Cons n ns)
  then obtain i rest where idx: "idx = i # rest" "i < n" "list_all2 (<) rest ns"
    by (auto simp: list_all2_Cons2)
  let ?r = "sum_list (map2 (\<lambda>i st. int i * st) rest (c_strides ns))"
  have r: "0 \<le> ?r" "?r < int (prod_list ns)" using c_sum_bounds[OF idx(3)] by simp_all
  have ci: "c_index (n # ns) idx = i * prod_list ns + c_index ns rest"
    using r by (simp add: c_index_def idx nat_add_distrib nat_mult_distrib)
  have cr: "c_index ns rest < prod_list ns" using r by (simp add: c_index_def)
  have "all_indices (n # ns) ! (i * prod_list ns + c_index ns rest)
        = map ((#) i) (all_indices ns) ! c_index ns rest"
    unfolding all_indices.simps
    by (rule concat_blocks_nth) (simp_all add: length_all_indices idx cr)
  then show ?case using Cons.IH[OF idx(3)] cr ci
    by (simp add: idx length_all_indices)
qed

lemma c_index_less: "list_all2 (<) idx shp \<Longrightarrow> c_index shp idx < prod_list shp"
  using c_sum_bounds[of idx shp] by (auto simp: c_index_def nat_less_iff)



subsection \<open>Reference counts\<close>

lemma length_wrappers_IncRef: "length (wrappers (Py_IncRef p s)) = length (wrappers s)"
  by (simp add: Py_IncRef_def)

lemma length_wrappers_DecRef: "length (wrappers (Py_DecRef p s)) = length (wrappers s)"
  by (simp add: Py_DecRef_def)

lemma refcount_IncRef:
  "p < length (wrappers s) \<Longrightarrow>
   refcount (wrappers (Py_IncRef p s) ! q) =
     (if q = p then refcount (wrappers s ! p) + 1 else refcount (wrappers s ! q))"
  by (simp add: Py_IncRef_def nth_list_update)

lemma refcount_DecRef:
  "p < length (wrappers s) \<Longrightarrow>
   refcount (wrappers (Py_DecRef p s) ! q) =
     (if q = p then refcount (wrappers s ! p) - 1 else refcount (wrappers s ! q))"
  by (simp add: Py_DecRef_def nth_list_update)


lemma wrapped_state_eq:
  "wrapped_state =
     \<lparr>buffers = [replicate 24 0],
      wrappers = [\<lparr>array = \<lparr>backend = Numpy, dtype = Float64, buffer = 0, offset = 0,
                             shape = [2, 3, 4], strides = [12, 4, 1]\<rparr>,
                   shape_cache = [2, 3, 4], eqs_array = \<lparr>ptr = 0, origin = 0\<rparr>,
                   refcount = 1\<rparr>],
      NUMPY_STORAGE_ORIGIN = Some 0, TORCH_STORAGE_ORIGIN = None,
      origins = [''equistore.data.array.numpy''], last_error = None\<rparr>"
  by (simp add: wrapped_state_def ArrayWrapper_init_def zeros_def initial_state_def
      shape_attr_def is_numpy_array_def alloc_wrapper_def origin_numpy_def
      register_origin_def)

lemma grad_state_eq:
  "grad_state =
     \<lparr>buffers = [replicate 24 0],
      wrappers = [\<lparr>array = \<lparr>backend = Torch Cpu True, dtype = Float64, buffer = 0,
                             offset = 0, shape = [2, 3, 4], strides = [12, 4, 1]\<rparr>,
                   shape_cache = [2, 3, 4], eqs_array = \<lparr>ptr = 0, origin = 0\<rparr>,
                   refcount = 1\<rparr>],
      NUMPY_STORAGE_ORIGIN = None, TORCH_STORAGE_ORIGIN = Some 0,
      origins = [''equistore.data.array.torch''], last_error = None\<rparr>"
  by (simp add: grad_state_def ArrayWrapper_init_def zeros_def initial_state_def
      shape_attr_def is_numpy_array_def is_torch_array_def alloc_wrapper_def
      origin_pytorch_def register_origin_def)

lemma object_from_ptr_SomeD:
  "object_from_ptr s p = Some w \<Longrightarrow>
   p < length (wrappers s) \<and> wrappers s ! p = w \<and> 0 < refcount w"
  by (auto simp: object_from_ptr_def split: if_splits)

lemma into_n_props:
  "p < length (wrappers s) \<Longrightarrow>
   length (wrappers (into_n n p s)) = length (wrappers s) \<and>
   refcount (wrappers (into_n n p s) ! p) = refcount (wrappers s ! p) + n"
  by (induction n arbitrary: s)
     (simp_all add: into_eqs_array_def refcount_IncRef length_wrappers_IncRef)

lemma release_n_props:
  "p < length (wrappers s) \<Longrightarrow>
   length (wrappers (release_n n p s)) = length (wrappers s) \<and>
   refcount (wrappers (release_n n p s) ! p) = refcount (wrappers s ! p) - n"
  by (induction n arbitrary: s) (simp_all add: refcount_DecRef length_wrappers_DecRef)

lemma destroy_live:
  "p < length (wrappers s) \<Longrightarrow> 0 < refcount (wrappers s ! p) \<Longrightarrow>
   eqs_array_destroy p s = Some (EQS_SUCCESS, NoOut, Py_DecRef p s)"
  by (simp add: eqs_array_destroy_def catch_exceptions_def object_from_ptr_def)

lemma destroy_n_props:
  "p < length (wrappers s) \<Longrightarrow> k \<le> refcount (wrappers s ! p) \<Longrightarrow>
   \<exists>s'. destroy_n k p s = Some s' \<and> length (wrappers s') = length (wrappers s) \<and>
        refcount (wrappers s' ! p) = refcount (wrappers s ! p) - k"
proof (induction k arbitrary: s)
  case 0
  then show ?case by simp
next
  case (Suc k)
  have live: "0 < refcount (wrappers s ! p)" using Suc.prems by simp
  let ?s1 = "Py_DecRef p s"
  have "p < length (wrappers ?s1)" "k \<le> refcount (wrappers ?s1 ! p)"
    using Suc.prems by (simp_all add: refcount_DecRef length_wrappers_DecRef)
  from Suc.IH[OF this] obtain s' where
    "destroy_n k p ?s1 = Some s'" "length (wrappers s') = length (wrappers ?s1)"
    "refcount (wrappers s' ! p) = refcount (wrappers ?s1 ! p) - k" by blast
  then show ?case using Suc.prems live
    by (simp add: destroy_live refcount_DecRef length_wrappers_DecRef)
qed

text \<open>
  C7. Reference counting is balanced. A wrapper that the Python side holds \<open>c\<close>
  references to is given out \<open>n \<ge> 1\<close> times with \<^verbatim>\<open>into_eqs_array\<close>; the Python side
  lets go of its references; the native library calls \<^verbatim>\<open>destroy\<close> \<open>k \<le> n\<close> times. Every
  one of these calls succeeds, the count is then \<open>n - k\<close>, and the wrapper (with the
  array it holds) is released exactly when \<open>k = n\<close>: before the last matching
  \<^verbatim>\<open>destroy\<close> it is still reachable.
\<close>

theorem refcount_balanced:
  assumes "p < length (wrappers s)" and "refcount (wrappers s ! p) = c"
    and "1 \<le> n" and "k \<le> n"
  shows "map_option (\<lambda>s'. (refcount (wrappers s' ! p), object_from_ptr s' p = None))
           (destroy_n k p (release_n c p (into_n n p s))) = Some (n - k, k = n)"
proof -
  let ?s1 = "into_n n p s"
  let ?s2 = "release_n c p ?s1"
  have 1: "length (wrappers ?s1) = length (wrappers s)" "refcount (wrappers ?s1 ! p) = c + n"
    using into_n_props[OF assms(1)] assms(2) by simp_all
  have 2: "length (wrappers ?s2) = length (wrappers s)" "refcount (wrappers ?s2 ! p) = n"
    using release_n_props[of p ?s1 c] 1 assms(1) by simp_all
  have "\<exists>s'. destroy_n k p ?s2 = Some s' \<and> length (wrappers s') = length (wrappers ?s2) \<and>
        refcount (wrappers s' ! p) = refcount (wrappers ?s2 ! p) - k"
    by (rule destroy_n_props) (use 2 assms in simp_all)
  then obtain s' where s': "destroy_n k p ?s2 = Some s'"
    "length (wrappers s') = length (wrappers ?s2)" "refcount (wrappers s' ! p) = n - k"
    using 2 by auto
  have "(object_from_ptr s' p = None) = (k = n)"
    using s' 2 assms by (auto simp: object_from_ptr_def)
  with s' show ?thesis by simp
qed

theorem refcount_balanced_witness:
  "0 < length (wrappers wrapped_state) \<and> refcount (wrappers wrapped_state ! 0) = 1 \<and>
   map_option (\<lambda>s'. (refcount (wrappers s' ! 0), object_from_ptr s' 0 = None))
     (destroy_n 1 0 (release_n 1 0 (into_n 2 0 wrapped_state))) = Some (1, False) \<and>
   map_option (\<lambda>s'. (refcount (wrappers s' ! 0), object_from_ptr s' 0 = None))
     (destroy_n 2 0 (release_n 1 0 (into_n 2 0 wrapped_state))) = Some (0, True)"
  using refcount_balanced[of 0 wrapped_state 1 2 1] refcount_balanced[of 0 wrapped_state 1 2 2]
  by (simp add: wrapped_state_eq)





subsection \<open>The constructor\<close>

text \<open>
  C5. An object that is neither a numpy array nor a torch tensor is refused by the
  constructor: \<^verbatim>\<open>ArrayWrapper(obj)\<close> raises, to its caller, \<^verbatim>\<open>ValueError\<close> with the
  message \<^verbatim>\<open>unknown array type\<close> (or, for an object that has no shape to read,
  the \<^verbatim>\<open>AttributeError\<close> of that read), and no wrapper is made. For a numpy array or
  a tensor the constructor succeeds: the new wrapper holds the array and its current
  shape.
\<close>

theorem wrap_checks_type:
  "(\<not> is_numpy_array obj \<and> \<not> is_torch_array obj \<longrightarrow>
      ArrayWrapper_init obj s =
        Inl (case shape_attr obj of
               None \<Rightarrow> AttributeError (type_name obj @ '' object has no attribute shape'')
             | Some shp \<Rightarrow> ValueError (''unknown array type: '' @ type_name obj))) \<and>
   (is_numpy_array obj \<or> is_torch_array obj \<longrightarrow>
      (case ArrayWrapper_init obj s of
         Inl e \<Rightarrow> False
       | Inr (self, s') \<Rightarrow>
           self = length (wrappers s) \<and>
           wrappers s' = wrappers s @ [wrappers s' ! self] \<and>
           array (wrappers s' ! self) = the_array obj \<and>
           shape_cache (wrappers s' ! self) = shape (the_array obj) \<and>
           ptr (eqs_array (wrappers s' ! self)) = self \<and>
           refcount (wrappers s' ! self) = 1 \<and>
           buffers s' = buffers s))"
proof (cases obj)
  case (Array a)
  then show ?thesis
    by (simp add: ArrayWrapper_init_def is_numpy_array_def is_torch_array_def shape_attr_def
        alloc_wrapper_def origin_numpy_def origin_pytorch_def register_origin_def Let_def
        split: option.splits prod.splits)
next
  case (Other name shp)
  then show ?thesis
    by (simp add: ArrayWrapper_init_def is_numpy_array_def is_torch_array_def shape_attr_def
        split: option.splits)
qed

theorem wrap_checks_type_witness:
  "\<not> is_numpy_array (Other ''list'' None) \<and> \<not> is_torch_array (Other ''list'' None) \<and>
   ArrayWrapper_init (Other ''list'' None) wrapped_state
     = Inl (AttributeError ''list object has no attribute shape'') \<and>
   ArrayWrapper_init (Other ''DataFrame'' (Some [2, 3])) wrapped_state
     = Inl (ValueError ''unknown array type: DataFrame'') \<and>
   is_numpy_array (Array (array (wrappers wrapped_state ! 0))) \<and>
   (case ArrayWrapper_init (Array (array (wrappers wrapped_state ! 0))) wrapped_state of
      Inl e \<Rightarrow> False
    | Inr (self, s') \<Rightarrow> self = 1 \<and> shape_cache (wrappers s' ! self) = [2, 3, 4])"
  using wrap_checks_type[of "Other ''list'' None" wrapped_state]
    wrap_checks_type[of "Other ''DataFrame'' (Some [2, 3])" wrapped_state]
    wrap_checks_type[of "Array (array (wrappers wrapped_state ! 0))" wrapped_state]
  by (auto simp: is_numpy_array_def is_torch_array_def shape_attr_def type_name_def
      wrapped_state_eq split: sum.splits)


subsection \<open>The data pointer\<close>

lemma c_contiguous_backend: "c_contiguous (a\<lparr>backend := b\<rparr>) = c_contiguous a"
  by (simp add: c_contiguous_def)

text \<open>
  C4, as the code has it. For a live wrapper \<^verbatim>\<open>data\<close> makes its checks in this order:
  a tensor that is not on the CPU is refused; a tensor that requires a gradient is
  refused, by the \<^verbatim>\<open>numpy()\<close> call; an array that is not C-contiguous is refused; an
  array whose element type is not float64 is refused; otherwise the callback succeeds
  and hands back the address of the first element. Every refusal is the status \<open>-1\<close>
  with its message saved.
\<close>

theorem data_pointer_cases:
  assumes "object_from_ptr s this = Some w"
  shows "eqs_array_data this s = Some
           (if \<not> on_cpu (array w)
            then failure ''can only get data pointer for tensors on CPU'' s
            else if requires_grad (array w)
            then failure ''Can not call numpy() on Tensor that requires grad'' s
            else if \<not> c_contiguous (array w)
            then failure ''can not get data pointer for non contiguous array'' s
            else if dtype (array w) \<noteq> Float64
            then failure (''can not get data pointer for array type '' @ dtype_name (dtype (array w))) s
            else (EQS_SUCCESS, OutData (buffer (array w)) (offset (array w)), s))"
proof (cases "backend (array w)")
  case Numpy
  then show ?thesis using assms
    by (simp add: eqs_array_data_def catch_exceptions_def on_cpu_def requires_grad_def failure_def)
next
  case (Torch dev g)
  then show ?thesis using assms
    by (cases dev; cases g)
       (simp_all add: eqs_array_data_def catch_exceptions_def on_cpu_def requires_grad_def
          failure_def tensor_numpy_def c_contiguous_backend)
qed

theorem data_pointer_cases_witness:
  "object_from_ptr wrapped_state 0 = Some (wrappers wrapped_state ! 0) \<and>
   eqs_array_data 0 wrapped_state = Some (EQS_SUCCESS, OutData 0 0, wrapped_state)"
proof -
  have live: "object_from_ptr wrapped_state 0 = Some (wrappers wrapped_state ! 0)"
    by (simp add: wrapped_state_eq object_from_ptr_def)
  have "on_cpu (array (wrappers wrapped_state ! 0))"
    "\<not> requires_grad (array (wrappers wrapped_state ! 0))"
    "c_contiguous (array (wrappers wrapped_state ! 0))"
    "dtype (array (wrappers wrapped_state ! 0)) = Float64"
    "buffer (array (wrappers wrapped_state ! 0)) = 0"
    "offset (array (wrappers wrapped_state ! 0)) = 0"
    by (simp_all add: wrapped_state_eq on_cpu_def requires_grad_def c_contiguous_def)
  with data_pointer_cases[OF live] live show ?thesis by simp
qed

text \<open>
  C4 as stated fails: a tensor on the CPU that is C-contiguous and of type float64, but
  requires a gradient, is none of the three cases the claim lists, and \<^verbatim>\<open>data\<close> fails
  on it.
\<close>

theorem data_pointer_requires_grad_counterexample:
  "on_cpu (array (wrappers grad_state ! 0)) \<and>
   c_contiguous (array (wrappers grad_state ! 0)) \<and>
   dtype (array (wrappers grad_state ! 0)) = Float64 \<and>
   eqs_array_data 0 grad_state
     = Some (- 1, NoOut,
         grad_state\<lparr>last_error := Some ''Can not call numpy() on Tensor that requires grad''\<rparr>)"
  by (simp add: grad_state_eq on_cpu_def c_contiguous_def eqs_array_data_def
      catch_exceptions_def object_from_ptr_def tensor_numpy_def)


subsection \<open>Reshaping\<close>




subsection \<open>Swapping axes\<close>

lemma offset_of_swap:
  assumes "length idx = length (strides a)" and "i < length idx" and "j < length idx"
  shows "offset_of (a\<lparr>shape := shp, strides := swap i j (strides a)\<rparr>) (swap i j idx)
         = offset_of a idx"
proof -
  have "map2 (\<lambda>i st. int i * st) (swap i j idx) (swap i j (strides a))
        = swap i j (map2 (\<lambda>i st. int i * st) idx (strides a))"
    using assms by (simp add: zip_swap map_swap)
  then show ?thesis using assms by (simp add: offset_of_def sum_list_swap)
qed

text \<open>
  C8. For a live wrapper and two axes the array has, \<^verbatim>\<open>swap_axes\<close> succeeds; the shape
  it then reports is the old one with the two entries exchanged, the number of elements
  is the same, no storage is written, and the element at each index is the element
  that was at the index with the two positions exchanged. A second \<^verbatim>\<open>swap_axes\<close> with
  the same axes succeeds and gives back the array as it was: the same shape, strides
  and storage.
\<close>

theorem swap_axes_involution:
  assumes "object_from_ptr s this = Some w"
    and "i < length (shape (array w))" and "j < length (shape (array w))"
    and "length (strides (array w)) = length (shape (array w))"
  shows "case eqs_array_swap_axes this i j s of
           None \<Rightarrow> False
         | Some (status1, r1, s1) \<Rightarrow>
             status1 = EQS_SUCCESS \<and>
             shape_cache (wrappers s1 ! this) = swap i j (shape (array w)) \<and>
             shape (array (wrappers s1 ! this)) = swap i j (shape (array w)) \<and>
             prod_list (shape (array (wrappers s1 ! this))) = prod_list (shape (array w)) \<and>
             buffers s1 = buffers s \<and>
             (\<forall>idx. length idx = length (shape (array w)) \<longrightarrow>
                get s1 (array (wrappers s1 ! this)) (swap i j idx) = get s (array w) idx) \<and>
             (case eqs_array_swap_axes this i j s1 of
                None \<Rightarrow> False
              | Some (status2, r2, s2) \<Rightarrow>
                  status2 = EQS_SUCCESS \<and>
                  array (wrappers s2 ! this) = array w \<and>
                  shape_cache (wrappers s2 ! this) = shape (array w) \<and>
                  buffers s2 = buffers s)"
proof -
  from assms(1) have p: "this < length (wrappers s)" "wrappers s ! this = w" "0 < refcount w"
    using object_from_ptr_SomeD by blast+
  let ?a1 = "(array w)\<lparr>shape := swap i j (shape (array w)), strides := swap i j (strides (array w))\<rparr>"
  let ?w1 = "w\<lparr>array := ?a1, shape_cache := shape ?a1\<rparr>"
  let ?s1 = "s\<lparr>wrappers := (wrappers s)[this := ?w1]\<rparr>"
  have first: "eqs_array_swap_axes this i j s = Some (EQS_SUCCESS, NoOut, ?s1)"
    using assms by (simp add: eqs_array_swap_axes_def catch_exceptions_def swapaxes_def)
  have live1: "object_from_ptr ?s1 this = Some ?w1"
    using p by (simp add: object_from_ptr_def)
  let ?a2 = "?a1\<lparr>shape := swap i j (shape ?a1), strides := swap i j (strides ?a1)\<rparr>"
  let ?w2 = "?w1\<lparr>array := ?a2, shape_cache := shape ?a2\<rparr>"
  let ?s2 = "?s1\<lparr>wrappers := (wrappers ?s1)[this := ?w2]\<rparr>"
  have second: "eqs_array_swap_axes this i j ?s1 = Some (EQS_SUCCESS, NoOut, ?s2)"
    using assms live1
    by (simp add: eqs_array_swap_axes_def catch_exceptions_def swapaxes_def length_swap)
  have restored: "?a2 = array w"
    using assms by (simp add: swap_swap)
  have elems: "get ?s1 ?a1 (swap i j idx) = get s (array w) idx"
    if "length idx = length (shape (array w))" for idx
    using that assms offset_of_swap[of idx "array w" i j "swap i j (shape (array w))"]
    by (simp add: get_def)
  have two: "case eqs_array_swap_axes this i j ?s1 of
                None \<Rightarrow> False
              | Some (status2, r2, s2) \<Rightarrow>
                  status2 = EQS_SUCCESS \<and>
                  array (wrappers s2 ! this) = array w \<and>
                  shape_cache (wrappers s2 ! this) = shape (array w) \<and>
                  buffers s2 = buffers s"
    unfolding second using p assms restored by (simp add: swap_swap)
  have one: "shape_cache (wrappers ?s1 ! this) = swap i j (shape (array w))"
    "shape (array (wrappers ?s1 ! this)) = swap i j (shape (array w))"
    "prod_list (shape (array (wrappers ?s1 ! this))) = prod_list (shape (array w))"
    "buffers ?s1 = buffers s"
    "array (wrappers ?s1 ! this) = ?a1"
    using p assms by (simp_all add: prod_list_swap)
  show ?thesis
    unfolding first option.case prod.case
    using one(1-4) two elems unfolding one(5) by blast
qed

theorem swap_axes_involution_witness:
  "object_from_ptr wrapped_state 0 = Some (wrappers wrapped_state ! 0) \<and>
   0 < length (shape (array (wrappers wrapped_state ! 0))) \<and>
   2 < length (shape (array (wrappers wrapped_state ! 0))) \<and>
   length (strides (array (wrappers wrapped_state ! 0)))
     = length (shape (array (wrappers wrapped_state ! 0))) \<and>
   (case eqs_array_swap_axes 0 0 2 wrapped_state of
      None \<Rightarrow> False
    | Some (status1, r1, s1) \<Rightarrow>
        status1 = EQS_SUCCESS \<and> shape_cache (wrappers s1 ! 0) = [4, 3, 2] \<and>
        (case eqs_array_swap_axes 0 0 2 s1 of
           None \<Rightarrow> False
         | Some (status2, r2, s2) \<Rightarrow>
             status2 = EQS_SUCCESS \<and> shape_cache (wrappers s2 ! 0) = [2, 3, 4]))"
proof -
  have live: "object_from_ptr wrapped_state 0 = Some (wrappers wrapped_state ! 0)"
    by (simp add: wrapped_state_eq object_from_ptr_def)
  have shp: "shape (array (wrappers wrapped_state ! 0)) = [2, 3, 4]"
    "strides (array (wrappers wrapped_state ! 0)) = [12, 4, 1]"
    by (simp_all add: wrapped_state_eq)
  have axes: "0 < length (shape (array (wrappers wrapped_state ! 0)))"
    "2 < length (shape (array (wrappers wrapped_state ! 0)))"
    "length (strides (array (wrappers wrapped_state ! 0)))
       = length (shape (array (wrappers wrapped_state ! 0)))"
    by (simp_all add: shp)
  show ?thesis
    using swap_axes_involution[OF live axes] live axes
    by (auto simp: shp swap_def split: option.splits)
qed


subsection \<open>Failures inside a callback\<close>

lemma puts_buffer:
  "fold (\<lambda>idx. put a (f idx) (g idx)) xs s =
   s\<lparr>buffers := (buffers s)[buffer a :=
        fold (\<lambda>idx b. b[nat (offset_of a (f idx)) := g idx]) xs (buffers s ! buffer a)]\<rparr>"
proof (induction xs arbitrary: s)
  case Nil
  then show ?case by simp
next
  case (Cons x xs)
  let ?s1 = "put a (f x) (g x) s"
  have "fold (\<lambda>idx. put a (f idx) (g idx)) (x # xs) s
        = fold (\<lambda>idx. put a (f idx) (g idx)) xs ?s1"
    by simp
  also have "\<dots> = ?s1\<lparr>buffers := (buffers ?s1)[buffer a :=
        fold (\<lambda>idx b. b[nat (offset_of a (f idx)) := g idx]) xs (buffers ?s1 ! buffer a)]\<rparr>"
    by (rule Cons.IH)
  also have "\<dots> = s\<lparr>buffers := (buffers s)[buffer a :=
        fold (\<lambda>idx b. b[nat (offset_of a (f idx)) := g idx]) (x # xs)
          (buffers s ! buffer a)]\<rparr>"
    by (cases "buffer a < length (buffers s)") (simp_all add: put_def list_update_beyond)
  finally show ?case .
qed

lemma length_fold_update:
  "length (fold (\<lambda>x b. b[k x := v x]) xs b) = length b"
  by (induction xs arbitrary: b) simp_all

lemma put_rows_frame:
  assumes "put_rows astype a rows start stop val s = Inr (b', s')"
  shows "\<exists>b. s' = s\<lparr>buffers := (buffers s)[buffer a := b]\<rparr> \<and>
             (buffer a < length (buffers s) \<longrightarrow> length b = length (buffers s ! buffer a))"
  using assms
  unfolding put_rows_def Let_def
  by (auto simp: puts_buffer length_fold_update split: if_splits sum.splits prod.splits)

lemma wrap_new_array_last_error:
  "wrap_new_array (a, s) = Inr (r, s') \<Longrightarrow> last_error s' = last_error s"
  by (auto simp: wrap_new_array_def ArrayWrapper_init_def alloc_wrapper_def into_eqs_array_def
      Py_IncRef_def Py_DecRef_def origin_numpy_def origin_pytorch_def register_origin_def
      Let_def shape_attr_def
      split: option.splits if_splits prod.splits sum.splits)

lemma invoke_decorated: "invoke astype e c = catch_exceptions (undecorated astype e c)"
proof (cases c)
  case Origin
  show ?thesis unfolding Origin
    by (simp add: eqs_array_origin_def fun_eq_iff catch_exceptions_def)
next
  case Data
  show ?thesis unfolding Data by (simp add: eqs_array_data_def fun_eq_iff catch_exceptions_def)
next
  case Shape
  show ?thesis unfolding Shape by (simp add: eqs_array_shape_def fun_eq_iff catch_exceptions_def)
next
  case (Reshape shp)
  show ?thesis unfolding Reshape
    by (simp add: eqs_array_reshape_def fun_eq_iff catch_exceptions_def)
next
  case (Swap_axes i j)
  show ?thesis unfolding Swap_axes
    by (simp add: eqs_array_swap_axes_def fun_eq_iff catch_exceptions_def)
next
  case (Create shp)
  show ?thesis unfolding Create
    by (simp add: eqs_array_create_def fun_eq_iff catch_exceptions_def)
next
  case Copy
  show ?thesis unfolding Copy by (simp add: eqs_array_copy_def fun_eq_iff catch_exceptions_def)
next
  case Destroy
  show ?thesis unfolding Destroy
    by (simp add: eqs_array_destroy_def fun_eq_iff catch_exceptions_def)
next
  case (Move_samples_from inp samples property_start property_end)
  show ?thesis unfolding Move_samples_from
    by (simp add: eqs_array_move_samples_from_def fun_eq_iff catch_exceptions_def)
qed

lemma undecorated_live:
  fixes s :: "'a::zero state"
  assumes "object_from_ptr s (ptr e) \<noteq> None"
    and "case c of Move_samples_from inp samples property_start property_end \<Rightarrow>
           object_from_ptr s inp \<noteq> None | _ \<Rightarrow> True"
  shows "undecorated astype e c s \<noteq> None"
  using assms by (cases c) auto

lemma undecorated_last_error:
  fixes s :: "'a::zero state"
  assumes "undecorated astype e c s = Some (Inr (r, s'))"
  shows "last_error s' = last_error s"
proof (cases c)
  case Origin
  then show ?thesis using assms by auto
next
  case Data
  then show ?thesis using assms by (auto split: option.splits sum.splits if_splits)
next
  case Shape
  then show ?thesis using assms by (auto split: option.splits)
next
  case (Reshape shp)
  then show ?thesis using assms
    by (auto simp: reshape_def copy_array_def split: option.splits sum.splits if_splits)
next
  case (Swap_axes i j)
  then show ?thesis using assms by (auto split: option.splits sum.splits)
next
  case (Create shp)
  then show ?thesis using assms
    by (auto simp: zeros_def dest!: wrap_new_array_last_error
        split: option.splits backend.splits)
next
  case Copy
  then show ?thesis using assms
    by (auto simp: copy_array_def dest!: wrap_new_array_last_error split: option.splits)
next
  case Destroy
  then show ?thesis using assms by (auto simp: Py_DecRef_def split: option.splits)
next
  case (Move_samples_from inp samples property_start property_end)
  then show ?thesis using assms
    by (auto dest!: put_rows_frame split: option.splits sum.splits)
qed

text \<open>
  C3. Each of the nine callbacks is its body with \<^verbatim>\<open>catch_exceptions\<close> applied. Whatever
  it is called with, as long as the pointers it is given point to live wrappers, the
  body either raises or returns. When the body raises, the callback returns the status
  \<open>-1\<close>, which is not \<^verbatim>\<open>EQS_SUCCESS\<close>, hands nothing back, and the state is as before
  but for the message of that exception, which is saved. When the body returns, the
  callback returns \<^verbatim>\<open>EQS_SUCCESS\<close> with what the body handed back and the state the body
  left, and the saved message is as it was. The result of a callback is a status, never
  an exception.
\<close>

theorem callbacks_catch_exceptions:
  fixes s :: "'a::zero state"
  assumes "object_from_ptr s (ptr e) \<noteq> None"
    and "case c of Move_samples_from inp samples property_start property_end \<Rightarrow>
           object_from_ptr s inp \<noteq> None | _ \<Rightarrow> True"
  shows "case undecorated astype e c s of
           None \<Rightarrow> False
         | Some (Inl exn) \<Rightarrow>
             invoke astype e c s
               = Some (- 1, NoOut, s\<lparr>last_error := Some (message exn)\<rparr>) \<and>
             - 1 \<noteq> EQS_SUCCESS
         | Some (Inr (r, s')) \<Rightarrow>
             invoke astype e c s = Some (EQS_SUCCESS, r, s') \<and>
             last_error s' = last_error s"
proof (cases "undecorated astype e c s")
  case None
  then show ?thesis using undecorated_live[OF assms, of astype] by simp
next
  case (Some x)
  show ?thesis
  proof (cases x)
    case (Inl exn)
    then show ?thesis using Some
      by (simp add: invoke_decorated catch_exceptions_def EQS_SUCCESS_def)
  next
    case (Inr p)
    obtain r s' where p: "p = (r, s')" by (cases p) auto
    have "last_error s' = last_error s"
      by (rule undecorated_last_error[of astype e c s r s']) (simp add: Some Inr p)
    then show ?thesis using Some Inr p
      by (simp add: invoke_decorated catch_exceptions_def)
  qed
qed

theorem callbacks_catch_exceptions_witness:
  "object_from_ptr wrapped_state (ptr \<lparr>ptr = 0, origin = 0\<rparr>) \<noteq> None \<and>
   undecorated example_astype \<lparr>ptr = 0, origin = 0\<rparr> (Reshape [5, 5]) wrapped_state
     = Some (Inl (ValueError ''cannot reshape array into the requested shape'')) \<and>
   invoke example_astype \<lparr>ptr = 0, origin = 0\<rparr> (Reshape [5, 5]) wrapped_state
     = Some (- 1, NoOut,
         wrapped_state\<lparr>last_error := Some ''cannot reshape array into the requested shape''\<rparr>) \<and>
   undecorated example_astype \<lparr>ptr = 0, origin = 0\<rparr> Shape wrapped_state
     = Some (Inr (OutShape [2, 3, 4], wrapped_state)) \<and>
   invoke example_astype \<lparr>ptr = 0, origin = 0\<rparr> Shape wrapped_state
     = Some (EQS_SUCCESS, OutShape [2, 3, 4], wrapped_state)"
proof -
  have live: "object_from_ptr wrapped_state (ptr \<lparr>ptr = 0, origin = 0\<rparr>) \<noteq> None"
    by (simp add: wrapped_state_eq object_from_ptr_def)
  have 1: "case Reshape [5, 5] of
             Move_samples_from inp samples property_start property_end \<Rightarrow>
               object_from_ptr wrapped_state inp \<noteq> None
           | _ \<Rightarrow> True"
    by simp
  have 2: "case Shape of
             Move_samples_from inp samples property_start property_end \<Rightarrow>
               object_from_ptr wrapped_state inp \<noteq> None
           | _ \<Rightarrow> True"
    by simp
  have raised: "undecorated example_astype \<lparr>ptr = 0, origin = 0\<rparr> (Reshape [5, 5]) wrapped_state
     = Some (Inl (ValueError ''cannot reshape array into the requested shape''))"
    by (simp add: object_from_ptr_def reshape_def reshape_error_def wrapped_state_eq)
  have returned: "undecorated example_astype \<lparr>ptr = 0, origin = 0\<rparr> Shape wrapped_state
     = Some (Inr (OutShape [2, 3, 4], wrapped_state))"
    by (simp add: object_from_ptr_def wrapped_state_eq)
  show ?thesis
    using callbacks_catch_exceptions[OF live 1, of example_astype]
      callbacks_catch_exceptions[OF live 2, of example_astype] live
    unfolding raised returned by simp
qed


subsection \<open>What a call can change\<close>

lemma catch_exceptions_SomeD:
  assumes "catch_exceptions f s = Some (status, r, s')"
  shows "(\<exists>e. f s = Some (Inl e) \<and> s' = s\<lparr>last_error := Some (message e)\<rparr>) \<or>
         f s = Some (Inr (r, s'))"
  using assms by (auto simp: catch_exceptions_def split: option.splits sum.splits)

lemma wrap_new_array_state:
  assumes "wrap_new_array (a, s) = Inr (r, s')"
  shows "buffers s' = buffers s \<and>
         (\<exists>c. wrappers s' = wrappers s @ [c] \<and> array c = a \<and> shape_cache c = shape a \<and>
              refcount c = 1 \<and> ptr (eqs_array c) = length (wrappers s) \<and>
              r = OutArray (eqs_array c))"
  using assms
  by (auto simp: wrap_new_array_def ArrayWrapper_init_def alloc_wrapper_def into_eqs_array_def
      Py_IncRef_def Py_DecRef_def origin_numpy_def origin_pytorch_def register_origin_def
      Let_def shape_attr_def
      split: option.splits if_splits prod.splits sum.splits)

lemma invoke_frame:
  fixes s :: "'a::zero state"
  assumes "invoke astype e c s = Some (status, r, s')"
  shows "length (wrappers s) \<le> length (wrappers s') \<and>
         (\<forall>q < length (wrappers s). q \<noteq> ptr e \<longrightarrow> wrappers s' ! q = wrappers s ! q) \<and>
         length (buffers s) \<le> length (buffers s') \<and>
         (\<forall>b < length (buffers s). b \<noteq> buffer (array (wrappers s ! ptr e)) \<longrightarrow>
            buffers s' ! b = buffers s ! b) \<and>
         (ptr e < length (wrappers s) \<longrightarrow>
            buffer (array (wrappers s' ! ptr e)) = buffer (array (wrappers s ! ptr e)) \<or>
            (length (buffers s) \<le> buffer (array (wrappers s' ! ptr e)) \<and>
             buffer (array (wrappers s' ! ptr e)) < length (buffers s')))"
proof (cases c)
  case Origin
  then show ?thesis using assms
    by (auto simp: eqs_array_origin_def dest!: catch_exceptions_SomeD)
next
  case Data
  then show ?thesis using assms
    by (auto simp: eqs_array_data_def dest!: catch_exceptions_SomeD
        split: option.splits sum.splits if_splits)
next
  case Shape
  then show ?thesis using assms
    by (auto simp: eqs_array_shape_def dest!: catch_exceptions_SomeD split: option.splits)
next
  case (Reshape shp)
  then show ?thesis using assms
    by (auto simp: eqs_array_reshape_def reshape_def copy_array_def nth_list_update nth_append
        dest!: catch_exceptions_SomeD object_from_ptr_SomeD
        split: option.splits sum.splits if_splits)
next
  case (Swap_axes i j)
  then show ?thesis using assms
    by (auto simp: eqs_array_swap_axes_def swapaxes_def nth_list_update
        dest!: catch_exceptions_SomeD object_from_ptr_SomeD
        split: option.splits sum.splits if_splits)
next
  case (Create shp)
  then show ?thesis using assms
    by (auto simp: eqs_array_create_def zeros_def nth_append
        dest!: catch_exceptions_SomeD object_from_ptr_SomeD wrap_new_array_state
        split: option.splits backend.splits)
next
  case Copy
  then show ?thesis using assms
    by (auto simp: eqs_array_copy_def copy_array_def nth_append
        dest!: catch_exceptions_SomeD object_from_ptr_SomeD wrap_new_array_state
        split: option.splits)
next
  case Destroy
  then show ?thesis using assms
    by (auto simp: eqs_array_destroy_def Py_DecRef_def nth_list_update
        dest!: catch_exceptions_SomeD object_from_ptr_SomeD
        split: option.splits)
next
  case (Move_samples_from inp samples property_start property_end)
  then show ?thesis using assms
    by (auto simp: eqs_array_move_samples_from_def nth_list_update
        dest!: catch_exceptions_SomeD object_from_ptr_SomeD put_rows_frame
        split: option.splits sum.splits prod.splits)
qed


subsection \<open>Storing elements\<close>

lemma strip_ones_short: "length v \<le> n \<Longrightarrow> strip_ones v n = v"
  by (cases v) simp_all

lemma broadcastable_refl: "broadcastable t t"
  by (simp add: broadcastable_def strip_ones_short list_all2_same)

lemma map2_broadcast_id:
  fixes t :: "nat list"
  shows "list_all2 (<) idx t \<Longrightarrow> map2 (\<lambda>d i. if d = 1 then 0 else i) t idx = idx"
  by (induction idx t rule: list_all2_induct) auto

lemma broadcast_index_refl:
  assumes "idx \<in> set (all_indices t)"
  shows "broadcast_index t t idx = idx"
proof -
  have "list_all2 (<) idx t" using assms by (simp add: set_all_indices)
  then have m: "map2 (\<lambda>d i. if d = 1 then 0 else i) t idx = idx"
    by (rule map2_broadcast_id)
  have "broadcast_index t t idx
        = replicate 0 0 @ map2 (\<lambda>d i. if d = 1 then 0 else i) t (drop 0 idx)"
    by (simp only: broadcast_index_def Let_def strip_ones_short[OF order_refl] diff_self_eq_0)
  then show ?thesis by (simp only: m replicate_0 drop_0 append_Nil)
qed

lemma list_all2_rows:
  "list_all2 (<) idx (n # mid @ [w]) \<longleftrightarrow>
   (\<exists>k i c. idx = k # i @ [c] \<and> k < n \<and> list_all2 (<) i mid \<and> c < (w::nat))"
proof
  assume "list_all2 (<) idx (n # mid @ [w])"
  then obtain k rest where 1: "idx = k # rest" "k < n" "list_all2 (<) rest (mid @ [w])"
    by (auto simp: list_all2_Cons2)
  from 1(3) obtain us vs where 2: "rest = us @ vs" "list_all2 (<) us mid" "list_all2 (<) vs [w]"
    by (auto simp: list_all2_append2)
  from 2(3) obtain c where 3: "vs = [c]" "c < w"
    by (auto simp: list_all2_Cons2)
  show "\<exists>k i c. idx = k # i @ [c] \<and> k < n \<and> list_all2 (<) i mid \<and> c < w"
    using 1 2 3 by blast
next
  assume "\<exists>k i c. idx = k # i @ [c] \<and> k < n \<and> list_all2 (<) i mid \<and> c < w"
  then obtain k i c where "idx = k # i @ [c]" "k < n" "list_all2 (<) i mid" "c < w"
    by blast
  then show "list_all2 (<) idx (n # mid @ [w])"
    by (simp add: list_all2_appendI)
qed

lemma all_indices_rows:
  "idx \<in> set (all_indices (n # mid @ [w])) \<longleftrightarrow>
   (\<exists>k i c. idx = k # i @ [c] \<and> k < n \<and> i \<in> set (all_indices mid) \<and> c < w)"
  unfolding set_all_indices mem_Collect_eq by (rule list_all2_rows)






subsection \<open>Arrays in row-major order\<close>

lemma offset_of_c_strides:
  "offset a = 0 \<Longrightarrow> strides a = c_strides (shape a) \<Longrightarrow> list_all2 (<) idx (shape a) \<Longrightarrow>
   offset_of a idx = int (c_index (shape a) idx)"
  using c_sum_bounds[of idx "shape a"] by (simp add: offset_of_def c_index_def)





subsection \<open>Moving samples\<close>

lemma move_samples_state:
  assumes dst: "object_from_ptr s this = Some wo" and src: "object_from_ptr s inp = Some wi"
    and so: "shape (array wo) = n_out # mid @ [w_out]"
    and si: "shape (array wi) = n_in # mid @ [stop - start]"
    and range: "start \<le> stop" "stop \<le> w_out"
    and rows: "\<forall>m \<in> set samples. input_sample m < n_in \<and> output_sample m < n_out"
    and same: "backend (array wi) = backend (array wo)" "dtype (array wi) = dtype (array wo)"
    and nograd: "\<not> requires_grad (array wo)"
  shows "eqs_array_move_samples_from astype this inp samples start stop s =
     Some (EQS_SUCCESS, NoOut,
       s\<lparr>buffers := (buffers s)[buffer (array wo) :=
           fold (\<lambda>idx b. b[nat (offset_of (array wo)
                   (output_sample (samples ! hd idx) # butlast (tl idx) @ [start + last idx]))
                 := get s (array wi) (input_sample (samples ! hd idx) # tl idx)])
             (all_indices (length samples # mid @ [stop - start]))
             (buffers s ! buffer (array wo))]\<rparr>)"
    (is "_ = Some (_, _, ?R)")
proof -
  let ?a = "array wo" and ?ai = "array wi"
  let ?t = "length samples # mid @ [stop - start]"
  let ?V = "\<lambda>idx. get s ?ai (map input_sample samples ! hd idx # tl idx)"
  let ?val = "\<lparr>value_backend = backend ?ai, value_dtype = dtype ?ai, value_shape = ?t,
               value_at = ?V\<rparr>"
  let ?F = "\<lambda>idx. put ?a (map output_sample samples ! hd idx # butlast (tl idx) @ [start + last idx])
                      (?V (broadcast_index ?t ?t idx))"
  let ?G = "\<lambda>idx. put ?a (output_sample (samples ! hd idx) # butlast (tl idx) @ [start + last idx])
                      (get s ?ai (input_sample (samples ! hd idx) # tl idx))"
  have take: "take_rows s ?ai (map input_sample samples) = Inr ?val"
    using si rows by (auto simp: take_rows_def)
  have conv: "assigned astype ?a ?val = Inr (backend ?a, \<lambda>x. x)"
    using same nograd
    by (auto simp: assigned_def requires_grad_def split: backend.splits)
  from dst have p: "this < length (wrappers s)" "wrappers s ! this = wo"
    using object_from_ptr_SomeD by blast+
  have mins: "min start w_out = start" "min stop w_out = stop"
    using range by simp_all
  have put: "put_rows astype ?a (map output_sample samples) start stop ?val s
             = Inr (backend ?a, fold ?F (all_indices ?t) s)"
    using so rows by (auto simp: put_rows_def Let_def broadcastable_refl mins conv)
  have FG: "fold ?F (all_indices ?t) s = fold ?G (all_indices ?t) s"
  proof (rule fold_cong[OF refl refl])
    fix idx assume mem: "idx \<in> set (all_indices ?t)"
    then obtain k i c where idx: "idx = k # i @ [c]" "k < length samples"
      using all_indices_rows[of idx "length samples" mid "stop - start"] by blast
    show "?F idx = ?G idx"
      unfolding broadcast_index_refl[OF mem] using idx by simp
  qed
  have st: "fold ?F (all_indices ?t) s = ?R"
    unfolding FG by (rule puts_buffer)
  have same_wrappers: "?R\<lparr>wrappers := (wrappers ?R)
          [this := wo\<lparr>array := (array wo)\<lparr>backend := backend (array wo)\<rparr>\<rparr>]\<rparr> = ?R"
    using p by (simp add: list_update_same_conv)
  have body: "eqs_array_move_samples_from astype this inp samples start stop s
              = Some (EQS_SUCCESS, NoOut,
                  (fold ?F (all_indices ?t) s)\<lparr>wrappers :=
                     (wrappers (fold ?F (all_indices ?t) s))
                       [this := wo\<lparr>array := (array wo)\<lparr>backend := backend (array wo)\<rparr>\<rparr>]\<rparr>)"
    unfolding eqs_array_move_samples_from_def catch_exceptions_def
    by (simp add: dst src take put)
  show ?thesis
    unfolding body st same_wrappers by (rule refl)
qed




subsection \<open>Copies\<close>

lemma untouchedI:
  assumes "wrappers s' ! q = wrappers s ! q"
    and "buffers s' ! buffer (array (wrappers s ! q)) = buffers s ! buffer (array (wrappers s ! q))"
  shows "untouched s s' q"
  using assms by (simp add: untouched_def elements_def get_def)

lemma separate_sym: "separate s p q = separate s q p"
  by (auto simp: separate_def)

lemma invoke_separate:
  fixes s :: "'a::zero state"
  assumes sep: "separate s p q" and e: "ptr e = p"
    and inv: "invoke astype e c s = Some (status, r, s')"
  shows "separate s' p q \<and> untouched s s' q"
proof -
  note fr = invoke_frame[OF inv, unfolded e]
  have p: "p \<noteq> q" "p < length (wrappers s)" "q < length (wrappers s)"
    "buffer (array (wrappers s ! p)) < length (buffers s)"
    "buffer (array (wrappers s ! q)) < length (buffers s)"
    "buffer (array (wrappers s ! p)) \<noteq> buffer (array (wrappers s ! q))"
    using sep by (simp_all add: separate_def)
  have wq: "wrappers s' ! q = wrappers s ! q" using fr p by simp
  have bq: "buffers s' ! buffer (array (wrappers s ! q)) = buffers s ! buffer (array (wrappers s ! q))"
    using fr p by simp
  have bp: "buffer (array (wrappers s' ! p)) = buffer (array (wrappers s ! p)) \<or>
            (length (buffers s) \<le> buffer (array (wrappers s' ! p)) \<and>
             buffer (array (wrappers s' ! p)) < length (buffers s'))"
    using fr p by simp
  have len: "length (wrappers s) \<le> length (wrappers s')" "length (buffers s) \<le> length (buffers s')"
    using fr by simp_all
  have "separate s' p q"
    unfolding separate_def wq using p len bp by auto
  moreover have "untouched s s' q"
    by (rule untouchedI[OF wq bq])
  ultimately show ?thesis by simp
qed

lemma put_separate:
  assumes sep: "separate s p q"
  shows "untouched s (put (array (wrappers s ! p)) idx x s) q"
  using sep by (intro untouchedI) (simp_all add: put_def separate_def)

lemma run_separate:
  fixes s :: "'a::zero state"
  assumes "separate s p q" and "\<forall>(h, c) \<in> set cs. ptr h = p \<or> ptr h = q"
    and "run astype cs s = Some t"
  shows "separate t p q"
  using assms
proof (induction cs arbitrary: s)
  case Nil
  then show ?case by simp
next
  case (Cons x cs)
  obtain h c where x: "x = (h, c)" by (cases x) auto
  from Cons.prems(3) obtain status r s' where
    inv: "invoke astype h c s = Some (status, r, s')" and rest: "run astype cs s' = Some t"
    unfolding x by (auto split: option.splits)
  have hp: "ptr h = p \<or> ptr h = q" using Cons.prems(2) x by simp
  have "separate s' p q"
  proof (cases "ptr h = p")
    case True
    then show ?thesis using invoke_separate[OF Cons.prems(1) True inv] by simp
  next
    case False
    then have "ptr h = q" using hp by simp
    then show ?thesis
      using invoke_separate[OF Cons.prems(1)[unfolded separate_sym[of s p q]] _ inv]
      by (simp add: separate_sym)
  qed
  moreover have "\<forall>(h, c) \<in> set cs. ptr h = p \<or> ptr h = q" using Cons.prems(2) by simp
  ultimately show ?case using Cons.IH rest by blast
qed

lemma wrap_new_array_succeeds: "\<exists>r s'. wrap_new_array (a, s) = Inr (r, s')"
  by (simp add: wrap_new_array_def ArrayWrapper_init_def shape_attr_def into_eqs_array_def
      is_numpy_array_def is_torch_array_def split: prod.splits)

lemma eqs_array_copy_state:
  assumes "object_from_ptr s this = Some w"
  shows "\<exists>c s'. eqs_array_copy this s = Some (EQS_SUCCESS, OutArray (eqs_array c), s') \<and>
           buffers s' = buffers s @ [elements s (array w)] \<and>
           wrappers s' = wrappers s @ [c] \<and>
           array c = (array w)\<lparr>buffer := length (buffers s), offset := 0,
                                 strides := c_strides (shape (array w))\<rparr> \<and>
           shape_cache c = shape (array w) \<and> refcount c = 1 \<and>
           ptr (eqs_array c) = length (wrappers s)"
proof -
  let ?a = "(array w)\<lparr>buffer := length (buffers s), offset := 0,
                          strides := c_strides (shape (array w))\<rparr>"
  let ?s1 = "s\<lparr>buffers := buffers s @ [elements s (array w)]\<rparr>"
  obtain r s' where wr: "wrap_new_array (?a, ?s1) = Inr (r, s')"
    using wrap_new_array_succeeds by blast
  from wrap_new_array_state[OF wr] obtain c where c:
    "buffers s' = buffers ?s1" "wrappers s' = wrappers ?s1 @ [c]" "array c = ?a"
    "shape_cache c = shape ?a" "refcount c = 1" "ptr (eqs_array c) = length (wrappers ?s1)"
    "r = OutArray (eqs_array c)" by blast
  have "eqs_array_copy this s = Some (EQS_SUCCESS, r, s')"
    by (simp add: eqs_array_copy_def catch_exceptions_def assms copy_array_def wr)
  then show ?thesis using c by simp
qed

lemma elements_nth:
  "list_all2 (<) idx (shape a) \<Longrightarrow> elements s a ! c_index (shape a) idx = get s a idx"
  using c_index_less[of idx "shape a"] all_indices_nth[of idx "shape a"]
  by (simp add: elements_def length_all_indices)

text \<open>
  C9. \<^verbatim>\<open>copy\<close>, called on a live wrapper whose array has its storage, succeeds and hands
  back the \<^verbatim>\<open>eqs_array_t\<close> of a new wrapper: its pointer is new and live, its reference
  count is 1, its shape (and the cached one), element type and library are those of the
  source, and its elements are the elements of the source at the time of the call. Its
  array lives in a block of storage that did not exist before the call, and the source
  is untouched by the call. From then on, after any sequence of calls made through the
  two handles, a call through the handle of the copy, whatever its status, leaves the
  source untouched, a call through the handle of the source leaves the copy untouched,
  and so does storing a value at an index of the array of one of them.
\<close>

theorem copy_independent:
  fixes s :: "'a::zero state"
  assumes live: "object_from_ptr s this = Some w"
    and stored: "buffer (array w) < length (buffers s)"
  shows "case eqs_array_copy this s of
           None \<Rightarrow> False
         | Some (status, r, s') \<Rightarrow>
             status = EQS_SUCCESS \<and>
             r = OutArray (eqs_array (wrappers s' ! length (wrappers s))) \<and>
             ptr (eqs_array (wrappers s' ! length (wrappers s))) = length (wrappers s) \<and>
             object_from_ptr s' (length (wrappers s)) = Some (wrappers s' ! length (wrappers s)) \<and>
             refcount (wrappers s' ! length (wrappers s)) = 1 \<and>
             shape_cache (wrappers s' ! length (wrappers s)) = shape (array w) \<and>
             shape (array (wrappers s' ! length (wrappers s))) = shape (array w) \<and>
             dtype (array (wrappers s' ! length (wrappers s))) = dtype (array w) \<and>
             backend (array (wrappers s' ! length (wrappers s))) = backend (array w) \<and>
             elements s' (array (wrappers s' ! length (wrappers s))) = elements s (array w) \<and>
             buffer (array (wrappers s' ! length (wrappers s))) = length (buffers s) \<and>
             length (buffers s') = Suc (length (buffers s)) \<and>
             untouched s s' this \<and>
             (\<forall>cs t. (\<forall>(h, c') \<in> set cs. ptr h = this \<or> ptr h = length (wrappers s)) \<longrightarrow>
                run astype cs s' = Some t \<longrightarrow>
                (\<forall>e c st r' t'. invoke astype e c t = Some (st, r', t') \<longrightarrow>
                   (ptr e = length (wrappers s) \<longrightarrow> untouched t t' this) \<and>
                   (ptr e = this \<longrightarrow> untouched t t' (length (wrappers s)))) \<and>
                (\<forall>idx x.
                   untouched t (put (array (wrappers t ! length (wrappers s))) idx x t) this \<and>
                   untouched t (put (array (wrappers t ! this)) idx x t) (length (wrappers s))))"
proof -
  let ?new = "length (wrappers s)"
  let ?a = "array w"
  from live have p: "this < length (wrappers s)" "wrappers s ! this = w" "0 < refcount w"
    using object_from_ptr_SomeD by blast+
  from eqs_array_copy_state[OF live] obtain c s' where
    res: "eqs_array_copy this s = Some (EQS_SUCCESS, OutArray (eqs_array c), s')"
    and bufs: "buffers s' = buffers s @ [elements s ?a]"
    and wrs: "wrappers s' = wrappers s @ [c]"
    and arr: "array c = ?a\<lparr>buffer := length (buffers s), offset := 0,
                              strides := c_strides (shape ?a)\<rparr>"
    and cache: "shape_cache c = shape ?a" and cnt: "refcount c = 1"
    and tok: "ptr (eqs_array c) = ?new"
    by blast
  have new: "wrappers s' ! ?new = c" by (simp add: wrs)
  have old: "wrappers s' ! this = w" using p by (simp add: wrs nth_append)
  have live': "object_from_ptr s' ?new = Some c"
    by (simp add: object_from_ptr_def wrs cnt)
  have same: "get s' (array c) idx = get s ?a idx"
    if "idx \<in> set (all_indices (shape ?a))" for idx
  proof -
    have v: "list_all2 (<) idx (shape (array c))" using that by (simp add: set_all_indices arr)
    have "offset_of (array c) idx = int (c_index (shape (array c)) idx)"
      by (rule offset_of_c_strides[OF _ _ v]) (simp_all add: arr)
    then have "get s' (array c) idx = elements s ?a ! c_index (shape ?a) idx"
      by (simp add: get_def bufs arr)
    also have "\<dots> = get s ?a idx"
      by (rule elements_nth) (use v in \<open>simp add: arr\<close>)
    finally show ?thesis .
  qed
  have shp: "shape (array c) = shape ?a" by (simp add: arr)
  have els: "elements s' (array c) = elements s ?a"
    unfolding elements_def shp by (rule map_cong[OF refl]) (rule same)
  have unt: "untouched s s' this"
    by (rule untouchedI) (use stored p in \<open>simp_all add: old bufs nth_append\<close>)
  have sep: "separate s' this ?new"
    using p stored by (simp add: separate_def wrs bufs nth_append arr)
  have indep: "(\<forall>e c st r' t'. invoke astype e c t = Some (st, r', t') \<longrightarrow>
                   (ptr e = ?new \<longrightarrow> untouched t t' this) \<and>
                   (ptr e = this \<longrightarrow> untouched t t' ?new)) \<and>
                (\<forall>idx x.
                   untouched t (put (array (wrappers t ! ?new)) idx x t) this \<and>
                   untouched t (put (array (wrappers t ! this)) idx x t) ?new)"
    if cs: "\<forall>(h, c') \<in> set cs. ptr h = this \<or> ptr h = ?new"
      and run: "run astype cs s' = Some t"
    for cs and t :: "'a state"
  proof -
    have st: "separate t this ?new" by (rule run_separate[OF sep cs run])
    have st': "separate t ?new this" using st by (simp add: separate_sym)
    show ?thesis
    proof (intro conjI allI impI)
      fix e c st r' and t' :: "'a state"
      assume inv: "invoke astype e c t = Some (st, r', t')" and "ptr e = ?new"
      then show "untouched t t' this"
        using invoke_separate[OF st' _ inv] by simp
    next
      fix e c st r' and t' :: "'a state"
      assume inv: "invoke astype e c t = Some (st, r', t')" and "ptr e = this"
      then show "untouched t t' ?new"
        using invoke_separate[OF st _ inv] by simp
    next
      fix idx x
      show "untouched t (put (array (wrappers t ! ?new)) idx x t) this"
        by (rule put_separate[OF st'])
      show "untouched t (put (array (wrappers t ! this)) idx x t) ?new"
        by (rule put_separate[OF st])
    qed
  qed
  have bl: "length (buffers s') = Suc (length (buffers s))" by (simp add: bufs)
  show ?thesis
    unfolding res option.case prod.case new
    using tok live' cnt cache arr els unt indep bl by (intro conjI) auto
qed

theorem copy_independent_witness:
  "object_from_ptr copy_state 0 = Some (wrappers copy_state ! 0) \<and>
   buffer (array (wrappers copy_state ! 0)) < length (buffers copy_state) \<and>
   elements copy_state (array (wrappers copy_state ! 0)) = [1, 2, 3, 4] \<and>
   eqs_array_copy 0 copy_state
     = Some (EQS_SUCCESS, OutArray \<lparr>ptr = 1, origin = 0\<rparr>, copied_state) \<and>
   refcount (wrappers copied_state ! 1) = 1 \<and>
   shape (array (wrappers copied_state ! 1)) = [2, 2] \<and>
   elements copied_state (array (wrappers copied_state ! 1)) = [1, 2, 3, 4] \<and>
   untouched copy_state copied_state 0 \<and>
   invoke example_astype \<lparr>ptr = 1, origin = 0\<rparr>
       (Move_samples_from 0 [\<lparr>input_sample = 1, output_sample = 0\<rparr>] 0 2) copied_state
     = Some (EQS_SUCCESS, NoOut, copied_state\<lparr>buffers := [[1, 2, 3, 4], [3, 4, 3, 4]]\<rparr>) \<and>
   untouched copied_state (copied_state\<lparr>buffers := [[1, 2, 3, 4], [3, 4, 3, 4]]\<rparr>) 0 \<and>
   elements (copied_state\<lparr>buffers := [[1, 2, 3, 4], [3, 4, 3, 4]]\<rparr>) copy_source
     = [1, 2, 3, 4] \<and>
   elements (copied_state\<lparr>buffers := [[1, 2, 3, 4], [3, 4, 3, 4]]\<rparr>)
     (copy_source\<lparr>buffer := 1\<rparr>) = [3, 4, 3, 4] \<and>
   invoke example_astype \<lparr>ptr = 0, origin = 0\<rparr>
       (Move_samples_from 0 [\<lparr>input_sample = 0, output_sample = 1\<rparr>] 0 2)
       (copied_state\<lparr>buffers := [[1, 2, 3, 4], [3, 4, 3, 4]]\<rparr>)
     = Some (EQS_SUCCESS, NoOut, copied_state\<lparr>buffers := [[1, 2, 1, 2], [3, 4, 3, 4]]\<rparr>) \<and>
   untouched (copied_state\<lparr>buffers := [[1, 2, 3, 4], [3, 4, 3, 4]]\<rparr>)
     (copied_state\<lparr>buffers := [[1, 2, 1, 2], [3, 4, 3, 4]]\<rparr>) 1 \<and>
   elements (copied_state\<lparr>buffers := [[1, 2, 1, 2], [3, 4, 3, 4]]\<rparr>) copy_source
     = [1, 2, 1, 2] \<and>
   elements (copied_state\<lparr>buffers := [[1, 2, 1, 2], [3, 4, 3, 4]]\<rparr>)
     (copy_source\<lparr>buffer := 1\<rparr>) = [3, 4, 3, 4]"
proof -
  let ?copy = "\<lparr>ptr = 1, origin = 0\<rparr>" and ?source = "\<lparr>ptr = 0, origin = 0\<rparr>"
  let ?first = "Move_samples_from 0 [\<lparr>input_sample = 1, output_sample = 0\<rparr>] 0 2"
  let ?second = "Move_samples_from 0 [\<lparr>input_sample = 0, output_sample = 1\<rparr>] 0 2"
  let ?t1 = "copied_state\<lparr>buffers := [[1, 2, 3, 4], [3, 4, 3, 4]]\<rparr>"
  let ?t2 = "copied_state\<lparr>buffers := [[1, 2, 1, 2], [3, 4, 3, 4]]\<rparr>"
  have live: "object_from_ptr copy_state 0 = Some (wrappers copy_state ! 0)"
    by (simp add: object_from_ptr_def copy_state_def)
  have stored: "buffer (array (wrappers copy_state ! 0)) < length (buffers copy_state)"
    by (simp add: copy_state_def copy_source_def)
  have copied: "eqs_array_copy 0 copy_state = Some (EQS_SUCCESS, OutArray ?copy, copied_state)"
    by code_simp
  have first: "invoke example_astype ?copy ?first copied_state = Some (EQS_SUCCESS, NoOut, ?t1)"
    by code_simp
  have second: "invoke example_astype ?source ?second ?t1 = Some (EQS_SUCCESS, NoOut, ?t2)"
    by code_simp
  have new: "length (wrappers copy_state) = 1" by (simp add: copy_state_def)
  note main = copy_independent[OF live stored, of example_astype,
      unfolded copied option.case prod.case new]
  from main have cnt: "refcount (wrappers copied_state ! 1) = 1"
    and shp: "shape (array (wrappers copied_state ! 1)) = shape (array (wrappers copy_state ! 0))"
    and els: "elements copied_state (array (wrappers copied_state ! 1))
              = elements copy_state (array (wrappers copy_state ! 0))"
    and unt: "untouched copy_state copied_state 0"
    and later: "\<And>cs t. \<forall>(h, c') \<in> set cs. ptr h = 0 \<or> ptr h = 1 \<Longrightarrow>
         run example_astype cs copied_state = Some t \<Longrightarrow>
         (\<forall>e c st r' t'. invoke example_astype e c t = Some (st, r', t') \<longrightarrow>
            (ptr e = 1 \<longrightarrow> untouched t t' 0) \<and> (ptr e = 0 \<longrightarrow> untouched t t' 1))"
    by blast+
  have none: "\<forall>(h, c') \<in> set []. ptr h = 0 \<or> ptr h = (1::nat)"
    by simp
  have run0: "run example_astype [] copied_state = Some copied_state"
    by simp
  have u1: "untouched copied_state ?t1 0"
    using later[OF none run0, rule_format, OF first] by simp
  have one: "\<forall>(h, c') \<in> set [(?copy, ?first)]. ptr h = 0 \<or> ptr h = (1::nat)"
    by simp
  have run1: "run example_astype [(?copy, ?first)] copied_state = Some ?t1"
    by (simp only: run.simps first option.case prod.case)
  have u2: "untouched ?t1 ?t2 1"
    using later[OF one run1, rule_format, OF second] by simp
  have e0: "elements copy_state (array (wrappers copy_state ! 0)) = [1, 2, 3, 4]"
    by code_simp
  have e1: "elements ?t1 copy_source = [1, 2, 3, 4]"
    "elements ?t1 (copy_source\<lparr>buffer := 1\<rparr>) = [3, 4, 3, 4]"
    "elements ?t2 copy_source = [1, 2, 1, 2]"
    "elements ?t2 (copy_source\<lparr>buffer := 1\<rparr>) = [3, 4, 3, 4]"
    by code_simp+
  have s0: "shape (array (wrappers copy_state ! 0)) = [2, 2]"
    by (simp add: copy_state_def copy_source_def)
  show ?thesis
    unfolding e0 e1
    by (intro conjI refl live stored copied first second cnt shp[unfolded s0]
        els[unfolded e0] unt u1 u2)
qed

subsection \<open>Element types\<close>

lemma data_needs_float64:
  assumes "object_from_ptr s this = Some w" and "dtype (array w) \<noteq> Float64"
  shows "\<exists>m. eqs_array_data this s = Some (failure m s)"
  using assms
  by (auto simp: eqs_array_data_def catch_exceptions_def failure_def tensor_numpy_def
      split: backend.splits bool.splits)

lemma data_dtype_message:
  assumes "object_from_ptr s this = Some w" and "dtype (array w) \<noteq> Float64"
    and "on_cpu (array w)" and "\<not> requires_grad (array w)" and "c_contiguous (array w)"
  shows "eqs_array_data this s = Some
           (failure (''can not get data pointer for array type '' @ dtype_name (dtype (array w))) s)"
  using assms
  by (auto simp: eqs_array_data_def catch_exceptions_def failure_def tensor_numpy_def
      on_cpu_def requires_grad_def c_contiguous_backend
      split: backend.splits bool.splits)

lemma ArrayWrapper_init_accepts:
  "\<exists>s'. ArrayWrapper_init (Array a) s = Inr (length (wrappers s), s') \<and>
         array (wrappers s' ! length (wrappers s)) = a \<and>
         shape_cache (wrappers s' ! length (wrappers s)) = shape a \<and>
         refcount (wrappers s' ! length (wrappers s)) = 1"
  by (auto simp: ArrayWrapper_init_def shape_attr_def is_numpy_array_def is_torch_array_def
      alloc_wrapper_def origin_numpy_def origin_pytorch_def register_origin_def Let_def
      split: option.splits prod.splits)

lemma eqs_array_reshape_succeeds:
  assumes "object_from_ptr s this = Some w"
    and "prod_list shp = prod_list (shape (array w))"
  shows "\<exists>s'. eqs_array_reshape this shp s = Some (EQS_SUCCESS, NoOut, s') \<and>
           shape (array (wrappers s' ! this)) = shp \<and>
           shape_cache (wrappers s' ! this) = shp \<and>
           dtype (array (wrappers s' ! this)) = dtype (array w)"
proof -
  from assms(1) have p: "this < length (wrappers s)"
    using object_from_ptr_SomeD by blast
  show ?thesis
    using assms p
    by (cases "c_contiguous (array w)")
      (simp_all add: eqs_array_reshape_def catch_exceptions_def reshape_def copy_array_def)
qed

lemma eqs_array_swap_axes_succeeds:
  assumes "object_from_ptr s this = Some w"
    and "axis_1 < length (shape (array w))" and "axis_2 < length (shape (array w))"
  shows "\<exists>s'. eqs_array_swap_axes this axis_1 axis_2 s = Some (EQS_SUCCESS, NoOut, s') \<and>
           shape (array (wrappers s' ! this)) = swap axis_1 axis_2 (shape (array w)) \<and>
           shape_cache (wrappers s' ! this) = swap axis_1 axis_2 (shape (array w)) \<and>
           dtype (array (wrappers s' ! this)) = dtype (array w)"
proof -
  from assms(1) have p: "this < length (wrappers s)"
    using object_from_ptr_SomeD by blast
  show ?thesis
    using assms p
    by (simp add: eqs_array_swap_axes_def catch_exceptions_def swapaxes_def)
qed

lemma eqs_array_create_succeeds:
  fixes s :: "'a::zero state"
  assumes "object_from_ptr s this = Some w"
  shows "\<exists>c s'. eqs_array_create this shp s = Some (EQS_SUCCESS, OutArray (eqs_array c), s') \<and>
           wrappers s' = wrappers s @ [c] \<and> ptr (eqs_array c) = length (wrappers s) \<and>
           refcount c = 1 \<and> shape (array c) = shp \<and> dtype (array c) = dtype (array w)"
proof -
  let ?b = "case backend (array w) of Numpy \<Rightarrow> Numpy | Torch dev g \<Rightarrow> Torch dev False"
  let ?z = "zeros ?b shp (dtype (array w)) s"
  obtain r s' where wr: "wrap_new_array ?z = Inr (r, s')"
    using wrap_new_array_succeeds[of "fst ?z" "snd ?z"] by auto
  then have wr': "wrap_new_array (fst ?z, snd ?z) = Inr (r, s')" by simp
  from wrap_new_array_state[OF wr'] obtain c where c:
    "wrappers s' = wrappers (snd ?z) @ [c]" "array c = fst ?z"
    "refcount c = 1" "ptr (eqs_array c) = length (wrappers (snd ?z))"
    "r = OutArray (eqs_array c)" by blast
  have "eqs_array_create this shp s = Some (EQS_SUCCESS, r, s')"
    using wr by (simp add: eqs_array_create_def catch_exceptions_def assms split: backend.splits)
  then show ?thesis using c by (simp add: zeros_def)
qed

lemma eqs_array_destroy_succeeds:
  assumes "object_from_ptr s this = Some w"
  shows "eqs_array_destroy this s = Some (EQS_SUCCESS, NoOut, Py_DecRef this s)"
  using assms by (simp add: eqs_array_destroy_def catch_exceptions_def)

text \<open>
  C10. The constructor accepts every array, whatever its element type and shape. For a
  live wrapper of an array whose element type is not float64, \<^verbatim>\<open>data\<close> fails: it
  returns a status that is not \<^verbatim>\<open>EQS_SUCCESS\<close> and saves a message, which is the message
  about the element type when the array is in host memory, tracks no gradient and is
  C-contiguous. Every other callback succeeds on such a wrapper when its other arguments
  are valid: \<^verbatim>\<open>origin\<close>, \<^verbatim>\<open>shape\<close>, \<^verbatim>\<open>copy\<close> and \<^verbatim>\<open>destroy\<close> always, \<^verbatim>\<open>create\<close> for
  every shape, \<^verbatim>\<open>reshape\<close> for a shape with as many elements, \<^verbatim>\<open>swap_axes\<close> for two
  axes the array has, and \<^verbatim>\<open>move_samples_from\<close> for a live source of the same library
  and element type whose shape fits, a range inside the last axis, rows that exist and
  a destination that tracks no gradient. The arrays made by \<^verbatim>\<open>reshape\<close>, \<^verbatim>\<open>swap_axes\<close>,
  \<^verbatim>\<open>create\<close> and \<^verbatim>\<open>copy\<close> have the element type of the array they were made from.
\<close>

theorem dtype_checked_by_data_only:
  fixes s :: "'a::zero state"
  assumes live: "object_from_ptr s (ptr e) = Some w"
    and other: "dtype (array w) \<noteq> Float64"
  shows "(\<exists>m. invoke astype e Data s = Some (failure m s) \<and>
              fst (failure m s) \<noteq> EQS_SUCCESS) \<and>
         (on_cpu (array w) \<and> \<not> requires_grad (array w) \<and> c_contiguous (array w) \<longrightarrow>
            invoke astype e Data s = Some
              (failure (''can not get data pointer for array type '' @
                        dtype_name (dtype (array w))) s)) \<and>
         invoke astype e Origin s = Some (EQS_SUCCESS, OutOrigin (origin e), s) \<and>
         invoke astype e Shape s = Some (EQS_SUCCESS, OutShape (shape_cache w), s) \<and>
         (\<forall>shp. prod_list shp = prod_list (shape (array w)) \<longrightarrow>
            (\<exists>s'. invoke astype e (Reshape shp) s = Some (EQS_SUCCESS, NoOut, s') \<and>
                  shape (array (wrappers s' ! ptr e)) = shp \<and>
                  dtype (array (wrappers s' ! ptr e)) = dtype (array w))) \<and>
         (\<forall>axis_1 axis_2.
            axis_1 < length (shape (array w)) \<and> axis_2 < length (shape (array w)) \<longrightarrow>
            (\<exists>s'. invoke astype e (Swap_axes axis_1 axis_2) s = Some (EQS_SUCCESS, NoOut, s') \<and>
                  shape (array (wrappers s' ! ptr e)) = swap axis_1 axis_2 (shape (array w)) \<and>
                  dtype (array (wrappers s' ! ptr e)) = dtype (array w))) \<and>
         (\<forall>shp. \<exists>h s'. invoke astype e (Create shp) s = Some (EQS_SUCCESS, OutArray h, s') \<and>
            shape (array (wrappers s' ! ptr h)) = shp \<and>
            dtype (array (wrappers s' ! ptr h)) = dtype (array w)) \<and>
         (\<exists>h s'. invoke astype e Copy s = Some (EQS_SUCCESS, OutArray h, s') \<and>
            shape (array (wrappers s' ! ptr h)) = shape (array w) \<and>
            dtype (array (wrappers s' ! ptr h)) = dtype (array w)) \<and>
         invoke astype e Destroy s = Some (EQS_SUCCESS, NoOut, Py_DecRef (ptr e) s) \<and>
         (\<forall>inp wi samples property_start property_end n_out mid w_out n_in.
            object_from_ptr s inp = Some wi \<and>
            shape (array w) = n_out # mid @ [w_out] \<and>
            shape (array wi) = n_in # mid @ [property_end - property_start] \<and>
            property_start \<le> property_end \<and> property_end \<le> w_out \<and>
            (\<forall>m \<in> set samples. input_sample m < n_in \<and> output_sample m < n_out) \<and>
            backend (array wi) = backend (array w) \<and> dtype (array wi) = dtype (array w) \<and>
            \<not> requires_grad (array w) \<longrightarrow>
            (\<exists>s'. invoke astype e
                     (Move_samples_from inp samples property_start property_end) s
                   = Some (EQS_SUCCESS, NoOut, s'))) \<and>
         (\<forall>a. \<exists>s'. ArrayWrapper_init (Array a) s = Inr (length (wrappers s), s') \<and>
                  array (wrappers s' ! length (wrappers s)) = a)"
proof (intro conjI allI impI)
  show "\<exists>m. invoke astype e Data s = Some (failure m s) \<and>
              fst (failure m s) \<noteq> EQS_SUCCESS"
    using data_needs_float64[OF live other] by (simp add: failure_def EQS_SUCCESS_def)
  show "invoke astype e Origin s = Some (EQS_SUCCESS, OutOrigin (origin e), s)"
    by (simp add: eqs_array_origin_def catch_exceptions_def)
  show "invoke astype e Shape s = Some (EQS_SUCCESS, OutShape (shape_cache w), s)"
    by (simp add: eqs_array_shape_def catch_exceptions_def live)
  show "invoke astype e Destroy s = Some (EQS_SUCCESS, NoOut, Py_DecRef (ptr e) s)"
    using eqs_array_destroy_succeeds[OF live] by simp
next
  fix shp assume "prod_list shp = prod_list (shape (array w))"
  then show "\<exists>s'. invoke astype e (Reshape shp) s = Some (EQS_SUCCESS, NoOut, s') \<and>
                  shape (array (wrappers s' ! ptr e)) = shp \<and>
                  dtype (array (wrappers s' ! ptr e)) = dtype (array w)"
    using eqs_array_reshape_succeeds[OF live, of shp] by auto
next
  fix axis_1 axis_2
  assume "axis_1 < length (shape (array w)) \<and> axis_2 < length (shape (array w))"
  then show "\<exists>s'. invoke astype e (Swap_axes axis_1 axis_2) s = Some (EQS_SUCCESS, NoOut, s') \<and>
                  shape (array (wrappers s' ! ptr e)) = swap axis_1 axis_2 (shape (array w)) \<and>
                  dtype (array (wrappers s' ! ptr e)) = dtype (array w)"
    using eqs_array_swap_axes_succeeds[OF live, of axis_1 axis_2] by auto
next
  fix shp
  from eqs_array_create_succeeds[OF live, of shp] obtain c s' where
    "eqs_array_create (ptr e) shp s = Some (EQS_SUCCESS, OutArray (eqs_array c), s')"
    "wrappers s' = wrappers s @ [c]" "ptr (eqs_array c) = length (wrappers s)"
    "shape (array c) = shp" "dtype (array c) = dtype (array w)" by blast
  then show "\<exists>h s'. invoke astype e (Create shp) s = Some (EQS_SUCCESS, OutArray h, s') \<and>
            shape (array (wrappers s' ! ptr h)) = shp \<and>
            dtype (array (wrappers s' ! ptr h)) = dtype (array w)"
    by (intro exI[of _ "eqs_array c"] exI[of _ s']) simp
next
  from eqs_array_copy_state[OF live] obtain c s' where
    "eqs_array_copy (ptr e) s = Some (EQS_SUCCESS, OutArray (eqs_array c), s')"
    "wrappers s' = wrappers s @ [c]" "ptr (eqs_array c) = length (wrappers s)"
    "array c = (array w)\<lparr>buffer := length (buffers s), offset := 0,
                            strides := c_strides (shape (array w))\<rparr>" by blast
  then show "\<exists>h s'. invoke astype e Copy s = Some (EQS_SUCCESS, OutArray h, s') \<and>
            shape (array (wrappers s' ! ptr h)) = shape (array w) \<and>
            dtype (array (wrappers s' ! ptr h)) = dtype (array w)"
    by (intro exI[of _ "eqs_array c"] exI[of _ s']) simp
next
  fix inp and wi :: ArrayWrapper and samples :: "eqs_sample_mapping_t list"
    and property_start property_end n_out mid w_out n_in
  assume h: "object_from_ptr s inp = Some wi \<and>
            shape (array w) = n_out # mid @ [w_out] \<and>
            shape (array wi) = n_in # mid @ [property_end - property_start] \<and>
            property_start \<le> property_end \<and> property_end \<le> w_out \<and>
            (\<forall>m \<in> set samples. input_sample m < n_in \<and> output_sample m < n_out) \<and>
            backend (array wi) = backend (array w) \<and> dtype (array wi) = dtype (array w) \<and>
            \<not> requires_grad (array w)"
  have "\<exists>s'. eqs_array_move_samples_from astype (ptr e) inp samples property_start property_end s
         = Some (EQS_SUCCESS, NoOut, s')"
    using move_samples_state[OF live, of inp wi n_out mid w_out n_in property_end property_start
        samples astype] h by blast
  then show "\<exists>s'. invoke astype e
                     (Move_samples_from inp samples property_start property_end) s
                   = Some (EQS_SUCCESS, NoOut, s')"
    by simp
next
  fix a :: ndarray
  show "\<exists>s'. ArrayWrapper_init (Array a) s = Inr (length (wrappers s), s') \<and>
                  array (wrappers s' ! length (wrappers s)) = a"
    using ArrayWrapper_init_accepts[of a s] by blast
next
  assume "on_cpu (array w) \<and> \<not> requires_grad (array w) \<and> c_contiguous (array w)"
  then show "invoke astype e Data s = Some
              (failure (''can not get data pointer for array type '' @
                        dtype_name (dtype (array w))) s)"
    using data_dtype_message[OF live other] by simp
qed

theorem dtype_checked_by_data_only_witness:
  "object_from_ptr int64_state (ptr \<lparr>ptr = 0, origin = 0\<rparr>) = Some (wrappers int64_state ! 0) \<and>
   dtype (array (wrappers int64_state ! 0)) \<noteq> Float64 \<and>
   on_cpu (array (wrappers int64_state ! 0)) \<and>
   \<not> requires_grad (array (wrappers int64_state ! 0)) \<and>
   c_contiguous (array (wrappers int64_state ! 0)) \<and>
   invoke (\<lambda>d d' x. x) \<lparr>ptr = 0, origin = 0\<rparr> Data int64_state
     = Some (failure ''can not get data pointer for array type int64'' int64_state) \<and>
   invoke (\<lambda>d d' x. x) \<lparr>ptr = 0, origin = 0\<rparr> Origin int64_state
     = Some (EQS_SUCCESS, OutOrigin 0, int64_state) \<and>
   invoke (\<lambda>d d' x. x) \<lparr>ptr = 0, origin = 0\<rparr> Shape int64_state
     = Some (EQS_SUCCESS, OutShape [2, 3], int64_state) \<and>
   prod_list [3, 2] = prod_list (shape (array (wrappers int64_state ! 0))) \<and>
   (\<exists>s'. invoke (\<lambda>d d' x. x) \<lparr>ptr = 0, origin = 0\<rparr> (Reshape [3, 2]) int64_state
            = Some (EQS_SUCCESS, NoOut, s') \<and>
          shape (array (wrappers s' ! 0)) = [3, 2] \<and> dtype (array (wrappers s' ! 0)) = Int64) \<and>
   (\<exists>s'. invoke (\<lambda>d d' x. x) \<lparr>ptr = 0, origin = 0\<rparr> (Swap_axes 0 1) int64_state
            = Some (EQS_SUCCESS, NoOut, s') \<and>
          shape (array (wrappers s' ! 0)) = [3, 2] \<and> dtype (array (wrappers s' ! 0)) = Int64) \<and>
   (\<exists>h s'. invoke (\<lambda>d d' x. x) \<lparr>ptr = 0, origin = 0\<rparr> (Create [5]) int64_state
            = Some (EQS_SUCCESS, OutArray h, s') \<and>
          shape (array (wrappers s' ! ptr h)) = [5] \<and>
          dtype (array (wrappers s' ! ptr h)) = Int64) \<and>
   (\<exists>h s'. invoke (\<lambda>d d' x. x) \<lparr>ptr = 0, origin = 0\<rparr> Copy int64_state
            = Some (EQS_SUCCESS, OutArray h, s') \<and>
          shape (array (wrappers s' ! ptr h)) = [2, 3] \<and>
          dtype (array (wrappers s' ! ptr h)) = Int64) \<and>
   invoke (\<lambda>d d' x. x) \<lparr>ptr = 0, origin = 0\<rparr> Destroy int64_state
     = Some (EQS_SUCCESS, NoOut, Py_DecRef 0 int64_state) \<and>
   (\<exists>s'. invoke (\<lambda>d d' x. x) \<lparr>ptr = 0, origin = 0\<rparr>
            (Move_samples_from 0 [\<lparr>input_sample = 0, output_sample = 1\<rparr>] 0 3) int64_state
          = Some (EQS_SUCCESS, NoOut, s')) \<and>
   (\<exists>s'. ArrayWrapper_init (Array int64_array) int64_state = Inr (1, s') \<and>
          array (wrappers s' ! 1) = int64_array)"
proof -
  let ?h = "\<lparr>ptr = 0, origin = 0\<rparr>"
  let ?w = "wrappers int64_state ! 0"
  let ?I = "\<lambda>(d::dtype) (d'::dtype) (x::int). x"
  have w: "?w = \<lparr>array = int64_array, shape_cache = [2, 3],
                  eqs_array = \<lparr>ptr = 0, origin = 0\<rparr>, refcount = 2\<rparr>"
    by (simp add: int64_state_def)
  have live: "object_from_ptr int64_state (ptr ?h) = Some ?w"
    by (simp add: object_from_ptr_def int64_state_def)
  have other: "dtype (array ?w) \<noteq> Float64"
    by (simp add: w int64_array_def)
  have host: "on_cpu (array ?w) \<and> \<not> requires_grad (array ?w) \<and> c_contiguous (array ?w)"
    by (simp add: w int64_array_def on_cpu_def requires_grad_def c_contiguous_def)
  have name: "''can not get data pointer for array type '' @ dtype_name (dtype (array ?w))
              = ''can not get data pointer for array type int64''"
    by (simp add: w int64_array_def dtype_name_def)
  have facts: "origin ?h = 0" "ptr ?h = 0" "shape_cache ?w = [2, 3]" "shape (array ?w) = [2, 3]"
    "dtype (array ?w) = Int64" "length (wrappers int64_state) = 1"
    by (simp_all add: w int64_array_def) (simp add: int64_state_def)
  have prod: "prod_list [3, 2] = prod_list (shape (array ?w))"
    by (simp add: facts)
  have axes: "0 < length (shape (array ?w)) \<and> 1 < length (shape (array ?w))"
    by (simp add: facts)
  have sw: "swap 0 1 [2, 3] = [3, 2::nat]"
    by (simp add: swap_def)
  have move: "object_from_ptr int64_state 0 = Some ?w \<and>
      shape (array ?w) = 2 # [] @ [3] \<and> shape (array ?w) = 2 # [] @ [3 - 0] \<and>
      (0::nat) \<le> 3 \<and> (3::nat) \<le> 3 \<and>
      (\<forall>m \<in> set [\<lparr>input_sample = 0, output_sample = 1\<rparr>]. input_sample m < 2 \<and> output_sample m < 2) \<and>
      backend (array ?w) = backend (array ?w) \<and> dtype (array ?w) = dtype (array ?w) \<and>
      \<not> requires_grad (array ?w)"
    using live host by (simp add: facts)
  note main = dtype_checked_by_data_only[OF live other, of ?I]
  from main host have D: "invoke ?I ?h Data int64_state
      = Some (failure ''can not get data pointer for array type int64'' int64_state)"
    unfolding name by blast
  from main have O: "invoke ?I ?h Origin int64_state = Some (EQS_SUCCESS, OutOrigin 0, int64_state)"
    and S: "invoke ?I ?h Shape int64_state = Some (EQS_SUCCESS, OutShape [2, 3], int64_state)"
    and Y: "invoke ?I ?h Destroy int64_state = Some (EQS_SUCCESS, NoOut, Py_DecRef 0 int64_state)"
    unfolding facts by blast+
  from main prod have R: "\<exists>s'. invoke ?I ?h (Reshape [3, 2]) int64_state
            = Some (EQS_SUCCESS, NoOut, s') \<and>
          shape (array (wrappers s' ! 0)) = [3, 2] \<and> dtype (array (wrappers s' ! 0)) = Int64"
    unfolding facts by blast
  from main axes have "\<exists>s'. invoke ?I ?h (Swap_axes 0 1) int64_state
            = Some (EQS_SUCCESS, NoOut, s') \<and>
          shape (array (wrappers s' ! 0)) = swap 0 1 [2, 3] \<and>
          dtype (array (wrappers s' ! 0)) = Int64"
    unfolding facts by blast
  then have X: "\<exists>s'. invoke ?I ?h (Swap_axes 0 1) int64_state
            = Some (EQS_SUCCESS, NoOut, s') \<and>
          shape (array (wrappers s' ! 0)) = [3, 2] \<and> dtype (array (wrappers s' ! 0)) = Int64"
    unfolding sw .
  from main have C: "\<exists>h s'. invoke ?I ?h (Create [5]) int64_state
            = Some (EQS_SUCCESS, OutArray h, s') \<and>
          shape (array (wrappers s' ! ptr h)) = [5] \<and>
          dtype (array (wrappers s' ! ptr h)) = Int64"
    unfolding facts by blast
  from main have K: "\<exists>h s'. invoke ?I ?h Copy int64_state
            = Some (EQS_SUCCESS, OutArray h, s') \<and>
          shape (array (wrappers s' ! ptr h)) = [2, 3] \<and>
          dtype (array (wrappers s' ! ptr h)) = Int64"
    unfolding facts by blast
  from main move have M: "\<exists>s'. invoke ?I ?h
            (Move_samples_from 0 [\<lparr>input_sample = 0, output_sample = 1\<rparr>] 0 3) int64_state
          = Some (EQS_SUCCESS, NoOut, s')"
    by blast
  from main have W: "\<exists>s'. ArrayWrapper_init (Array int64_array) int64_state = Inr (1, s') \<and>
          array (wrappers s' ! 1) = int64_array"
    unfolding facts by blast
  show ?thesis
    by (intro conjI live other host[THEN conjunct1] host[THEN conjunct2, THEN conjunct1]
        host[THEN conjunct2, THEN conjunct2] D O S prod R X C K Y M W)
qed

end
